theory Spec2Isabelle
  imports Main
begin

section \<open>PiRotary: the rotary-dial decoder and command dispatcher\<close>

text \<open>
  A shallow embedding of \<^verbatim>\<open>smartphone/PiRotary.py\<close>. The module's global variables
  are the fields of the record \<open>state\<close>; the values loaded once from the two JSON files
  by \<^verbatim>\<open>initGPIO\<close> and never assigned afterwards are the read-only record \<open>config\<close>; the
  input pins and the output of the weather process are the record \<open>signals\<close>. Everything
  the program does to the outside (pin writes, sleeps, external commands) is appended to
  the \<open>trace\<close> of the state, and every Python exception is a value \<open>Raised\<close>.
\<close>

subsection \<open>Data model\<close>

datatype level = PI_LOW | PI_HIGH

datatype error = IndexError | ValueError | UnicodeDecodeError

text \<open>The observable effects: \<^verbatim>\<open>pi.write(pin, level)\<close>, \<^verbatim>\<open>time.sleep\<close> (in
  milliseconds) and \<^verbatim>\<open>subprocess.Popen(cmd)\<close>.\<close>

datatype event = Write nat level | Sleep nat | Run "string list"

text \<open>
  A callback handle, such as \<^verbatim>\<open>cb_hangout_handler\<close>. \<^verbatim>\<open>pi.callback(...)\<close> registers a new
  callback and the global is rebound to it; a callback that was still registered and is
  no longer referenced stays registered (\<open>orphans\<close>). \<^verbatim>\<open>.cancel()\<close> unregisters the
  callback the global refers to, and is harmless when it is already cancelled.
\<close>

record handle =
  live :: bool
  orphans :: nat

definition callback :: "handle \<Rightarrow> handle" where
  "callback h = \<lparr>live = True, orphans = orphans h + (if live h then 1 else 0)\<rparr>"

definition cancel :: "handle \<Rightarrow> handle" where
  "cancel h = h\<lparr>live := False\<rparr>"

definition delivering :: "handle \<Rightarrow> bool" where
  "delivering h = (live h \<or> 0 < orphans h)"

text \<open>The values read from \<^verbatim>\<open>playlist.json\<close> and \<^verbatim>\<open>comments.json\<close>.\<close>

record config =
  text_messages :: "string list"
  track_list :: "string list"
  track_titles :: "string list"
  help_messages :: "string list"
  help_strings :: int
  tracks :: int
  music_path :: string
  weather_airport :: string
  weather_ICAO :: string

text \<open>
  The environment. \<open>line_in t\<close> and \<open>dial_in t\<close> are the levels of
  \<^verbatim>\<open>pin_phone_hangout\<close> and \<^verbatim>\<open>pin_dial_detect\<close> at time \<open>t\<close>, and \<open>weather_stdout t\<close> the
  lines (\<^verbatim>\<open>stdout.splitlines()\<close>, as byte strings) that the weather command prints when
  it is started at time \<open>t\<close>. Time is counted in blocking operations: every sleep and
  every external command advances the \<open>clock\<close> by one, and so does the wait between two
  interrupts (\<open>idle\<close>).
\<close>

record signals =
  line_in :: "nat \<Rightarrow> level"
  dial_in :: "nat \<Rightarrow> level"
  weather_stdout :: "nat \<Rightarrow> string list"

record state =
  ampli_status :: bool
  dialer_status :: level
  pulses :: nat
  dialed_number :: string
  track_position :: int
  is_playing :: bool
  cb_hangout_handler :: handle
  cb_dialer_handler :: handle
  cb_counter_handler :: handle
  gpio :: "nat \<Rightarrow> level"
  clock :: nat
  trace :: "event list"

text \<open>A call returns, or raises with the globals as they are at the raise.\<close>

datatype outcome = Returned state | Raised error state

fun final :: "outcome \<Rightarrow> state" where
  "final (Returned s) = s"
| "final (Raised e s) = s"

fun and_then :: "outcome \<Rightarrow> (state \<Rightarrow> outcome) \<Rightarrow> outcome" where
  "and_then (Returned s) f = f s"
| "and_then (Raised e s) f = Raised e s"

subsection \<open>Constants\<close>

definition pin_hangout_led :: nat where "pin_hangout_led = 4"
definition pin_ampli_mode :: nat where "pin_ampli_mode = 15"
definition pin_dial_counter :: nat where "pin_dial_counter = 18"
definition pin_dial_detect :: nat where "pin_dial_detect = 27"
definition pin_ampli_power :: nat where "pin_ampli_power = 22"
definition pin_phone_hangout :: nat where "pin_phone_hangout = 23"
definition pin_dialer_led :: nat where "pin_dialer_led = 24"
definition pin_dial_counter_led :: nat where "pin_dial_counter_led = 25"

definition max_numbers :: nat where "max_numbers = 3"

definition TTS :: "string list" where
  "TTS = [''/home/pi/smartphone/trans'', ''-sp'']"

definition PLAYER :: "string list" where
  "PLAYER = [''mplayer'']"

definition REBOOT :: "string list" where
  "REBOOT = [''sudo'', ''reboot'', ''now'']"

definition WEATHER :: "string list" where
  "WEATHER = [''weather'']"

subsection \<open>Python built-ins\<close>

text \<open>\<^verbatim>\<open>xs[i]\<close> on a list: a negative index counts from the end, an index out of range
  raises IndexError.\<close>

definition py_index :: "'a list \<Rightarrow> int \<Rightarrow> error + 'a" where
  "py_index xs i =
     (if 0 \<le> i \<and> i < int (length xs) then Inr (xs ! nat i)
      else if - int (length xs) \<le> i \<and> i < 0 then Inr (xs ! nat (int (length xs) + i))
      else Inl IndexError)"

definition digit_char :: "nat \<Rightarrow> char" where
  "digit_char d = ''0123456789'' ! d"

text \<open>\<^verbatim>\<open>str(n)\<close> for \<open>n \<ge> 0\<close>, and \<^verbatim>\<open>str(i)\<close> for any integer.\<close>

fun str_nat :: "nat \<Rightarrow> string" where
  "str_nat n = (if n < 10 then [digit_char n] else str_nat (n div 10) @ [digit_char (n mod 10)])"

definition str_int :: "int \<Rightarrow> string" where
  "str_int i = (if i < 0 then CHR ''-'' # str_nat (nat (- i)) else str_nat (nat i))"

definition digit_val :: "char \<Rightarrow> nat option" where
  "digit_val c = map_of
     [(CHR ''0'', 0), (CHR ''1'', 1), (CHR ''2'', 2), (CHR ''3'', 3), (CHR ''4'', 4),
      (CHR ''5'', 5), (CHR ''6'', 6), (CHR ''7'', 7), (CHR ''8'', 8), (CHR ''9'', 9)] c"

fun py_int_acc :: "nat \<Rightarrow> string \<Rightarrow> nat option" where
  "py_int_acc acc [] = Some acc"
| "py_int_acc acc (c # cs) =
     (case digit_val c of None \<Rightarrow> None | Some d \<Rightarrow> py_int_acc (10 * acc + d) cs)"

text \<open>
  \<^verbatim>\<open>int(s)\<close> on a string of decimal digits; \<open>None\<close> is ValueError. Python also accepts
  a sign, surrounding blanks and underscores: \<^verbatim>\<open>dialed_number\<close> is only ever extended by
  \<^verbatim>\<open>str\<close> of a non-negative integer, so these forms are left out and raise here.
\<close>

definition py_int :: "string \<Rightarrow> int option" where
  "py_int s = (if s = [] then None else map_option int (py_int_acc 0 s))"

text \<open>\<^verbatim>\<open>bytes.decode('ascii')\<close>: every byte must be below 128.\<close>

definition decode_ascii :: "string \<Rightarrow> error + string" where
  "decode_ascii b =
     (if list_all (\<lambda>c. (of_char c :: nat) < 128) b then Inr b else Inl UnicodeDecodeError)"

subsection \<open>GPIO and process primitives\<close>

definition pi_write :: "nat \<Rightarrow> level \<Rightarrow> state \<Rightarrow> state" where
  "pi_write pin l s = s\<lparr>gpio := (gpio s)(pin := l), trace := trace s @ [Write pin l]\<rparr>"

text \<open>\<^verbatim>\<open>pi.read(pin)\<close>: an input pin gives the signal now, an output pin the level last
  written to it.\<close>

definition pi_read :: "signals \<Rightarrow> nat \<Rightarrow> state \<Rightarrow> level" where
  "pi_read env pin s =
     (if pin = pin_phone_hangout then line_in env (clock s)
      else if pin = pin_dial_detect then dial_in env (clock s)
      else gpio s pin)"

definition sleep :: "nat \<Rightarrow> state \<Rightarrow> state" where
  "sleep ms s = s\<lparr>clock := clock s + 1, trace := trace s @ [Sleep ms]\<rparr>"

text \<open>\<^verbatim>\<open>runCmd(cmd)\<close> waits for the process; every caller drops the return code.\<close>

definition runCmd :: "string list \<Rightarrow> state \<Rightarrow> state" where
  "runCmd cmd s = s\<lparr>clock := clock s + 1, trace := trace s @ [Run cmd]\<rparr>"

text \<open>Time passing between two interrupts.\<close>

definition idle :: "state \<Rightarrow> state" where
  "idle s = s\<lparr>clock := clock s + 1\<rparr>"

subsection \<open>The interrupt gate\<close>

definition set_callbacks :: "state \<Rightarrow> state" where
  "set_callbacks s =
     pi_write pin_dial_counter_led PI_HIGH
       (s\<lparr>cb_hangout_handler := callback (cb_hangout_handler s),
          cb_dialer_handler := callback (cb_dialer_handler s),
          cb_counter_handler := callback (cb_counter_handler s)\<rparr>)"

definition release_callbacks :: "state \<Rightarrow> state" where
  "release_callbacks s =
     pi_write pin_dial_counter_led PI_LOW
       (s\<lparr>cb_hangout_handler := cancel (cb_hangout_handler s),
          cb_dialer_handler := cancel (cb_dialer_handler s),
          cb_counter_handler := cancel (cb_counter_handler s)\<rparr>)"

definition cb_release_rotary :: "state \<Rightarrow> state" where
  "cb_release_rotary s =
     pi_write pin_dial_counter_led PI_LOW
       (s\<lparr>cb_counter_handler := cancel (cb_counter_handler s),
          cb_dialer_handler := cancel (cb_dialer_handler s)\<rparr>)"

definition cb_set_rotary :: "state \<Rightarrow> state" where
  "cb_set_rotary s =
     pi_write pin_dial_counter_led PI_HIGH
       (s\<lparr>cb_dialer_handler := callback (cb_dialer_handler s),
          cb_counter_handler := callback (cb_counter_handler s)\<rparr>)"

definition cb_set_hangout :: "state \<Rightarrow> state" where
  "cb_set_hangout s = s\<lparr>cb_hangout_handler := callback (cb_hangout_handler s)\<rparr>"

subsection \<open>Amplifier and announcements\<close>

definition ampli_on_off :: "state \<Rightarrow> state" where
  "ampli_on_off s =
     (let s1 = pi_write pin_ampli_power PI_HIGH s;
          s2 = sleep 5000 s1;
          s3 = pi_write pin_ampli_power PI_LOW s2;
          s4 = sleep 2000 s3;
          s5 = pi_write pin_ampli_mode PI_HIGH s4;
          s6 = sleep 500 s5;
          s7 = pi_write pin_ampli_mode PI_LOW s6
      in s7\<lparr>ampli_status := False\<rparr>)"

text \<open>The closing lines of every action: \<^verbatim>\<open>if is_playing is True: ampli_on_off();
  is_playing = False\<close>.\<close>

definition power_down :: "state \<Rightarrow> state" where
  "power_down s = (if is_playing s then (ampli_on_off s)\<lparr>is_playing := False\<rparr> else s)"

text \<open>\<^verbatim>\<open>runCmd([TTS[0], TTS[1], txt])\<close>.\<close>

definition say :: "string \<Rightarrow> state \<Rightarrow> state" where
  "say txt s = runCmd [TTS ! 0, TTS ! 1, txt] s"

subsection \<open>The actions\<close>

text \<open>The body of the loop of \<^verbatim>\<open>play_all_tracks\<close>: announce and play the track at
  \<^verbatim>\<open>track_position\<close>, advance, and leave the loop when the line reads low.\<close>

function play_all_loop :: "config \<Rightarrow> signals \<Rightarrow> state \<Rightarrow> outcome" where
  "play_all_loop cfg env s =
     (if track_position s < tracks cfg then
        (case py_index (text_messages cfg) 4 of Inl e \<Rightarrow> Raised e s | Inr m \<Rightarrow>
         case py_index (track_titles cfg) (track_position s) of Inl e \<Rightarrow> Raised e s | Inr title \<Rightarrow>
         case py_index (track_list cfg) (track_position s) of Inl e \<Rightarrow> Raised e (say (m @ '' '' @ title) s) | Inr file \<Rightarrow>
           (let s1 = say (m @ '' '' @ title) s;
                s2 = runCmd [PLAYER ! 0, music_path cfg @ file @ ''.mp3''] s1;
                s3 = s2\<lparr>track_position := track_position s2 + 1\<rparr>
            in if pi_read env pin_phone_hangout s3 = PI_LOW then Returned s3
               else play_all_loop cfg env s3))
      else Returned s)"
  by pat_completeness auto
termination
  by (relation "measure (\<lambda>(cfg, env, s). nat (tracks cfg - track_position s))")
     (auto simp: say_def runCmd_def)

definition play_all_tracks :: "config \<Rightarrow> signals \<Rightarrow> state \<Rightarrow> outcome" where
  "play_all_tracks cfg env s =
     (let s1 = ampli_on_off (s\<lparr>is_playing := True\<rparr>);
          s2 = s1\<lparr>track_position := 0\<rparr>
      in case py_index (text_messages cfg) 3 of Inl e \<Rightarrow> Raised e s2 | Inr m3 \<Rightarrow>
         case py_index (text_messages cfg) 2 of Inl e \<Rightarrow> Raised e s2 | Inr m2 \<Rightarrow>
           and_then (play_all_loop cfg env (say (m3 @ '' '' @ m2) s2))
             (\<lambda>s3. Returned (power_down s3)))"

function list_loop :: "config \<Rightarrow> int \<Rightarrow> state \<Rightarrow> outcome" where
  "list_loop cfg counter s =
     (if counter < tracks cfg then
        (case py_index (track_titles cfg) counter of Inl e \<Rightarrow> Raised e s | Inr title \<Rightarrow>
           list_loop cfg (counter + 1)
             (say ('' '' @ str_int (counter + 1) @ '': '' @ title @ '', '') s))
      else Returned s)"
  by pat_completeness auto
termination
  by (relation "measure (\<lambda>(cfg, counter, s). nat (tracks cfg - counter))") auto

definition list_all_tracks :: "config \<Rightarrow> state \<Rightarrow> outcome" where
  "list_all_tracks cfg s =
     (let s1 = ampli_on_off (s\<lparr>is_playing := True\<rparr>)
      in case py_index (text_messages cfg) 6 of Inl e \<Rightarrow> Raised e s1 | Inr m6 \<Rightarrow>
         case py_index (text_messages cfg) 7 of Inl e \<Rightarrow> Raised e s1 | Inr m7 \<Rightarrow>
           and_then (list_loop cfg 0 (say (m6 @ '' '' @ str_int (tracks cfg) @ '' '' @ m7) s1))
             (\<lambda>s2. Returned (power_down s2)))"

function help_loop :: "config \<Rightarrow> int \<Rightarrow> state \<Rightarrow> outcome" where
  "help_loop cfg counter s =
     (if counter < help_strings cfg then
        (case py_index (help_messages cfg) counter of Inl e \<Rightarrow> Raised e s | Inr txt \<Rightarrow>
           help_loop cfg (counter + 1) (say txt s))
      else Returned s)"
  by pat_completeness auto
termination
  by (relation "measure (\<lambda>(cfg, counter, s). nat (help_strings cfg - counter))") auto

definition say_help :: "config \<Rightarrow> state \<Rightarrow> outcome" where
  "say_help cfg s =
     and_then (help_loop cfg 0 (ampli_on_off (s\<lparr>is_playing := True\<rparr>)))
       (\<lambda>s1. Returned (power_down s1))"

definition play_track :: "config \<Rightarrow> state \<Rightarrow> outcome" where
  "play_track cfg s =
     (let s1 = ampli_on_off (s\<lparr>is_playing := True\<rparr>)
      in case py_index (text_messages cfg) 4 of Inl e \<Rightarrow> Raised e s1 | Inr m \<Rightarrow>
         case py_index (track_titles cfg) (track_position s1) of Inl e \<Rightarrow> Raised e s1 | Inr title \<Rightarrow>
         case py_index (track_list cfg) (track_position s1) of Inl e \<Rightarrow> Raised e (say (m @ '' '' @ title) s1) | Inr file \<Rightarrow>
           (let s2 = say (m @ '' '' @ title) s1;
                s3 = runCmd [PLAYER ! 0, music_path cfg @ file @ ''.mp3''] s2;
                s4 = s3\<lparr>track_position := track_position s3 + 1\<rparr>;
                s5 = (if track_position s4 = tracks cfg then s4\<lparr>track_position := 0\<rparr> else s4)
            in Returned (power_down s5)))"

definition tts_message :: "config \<Rightarrow> int \<Rightarrow> state \<Rightarrow> outcome" where
  "tts_message cfg msg s =
     (case py_index (text_messages cfg) msg of Inl e \<Rightarrow> Raised e s | Inr tText \<Rightarrow>
        Returned (say tText s))"

function forecast_loop :: "string list \<Rightarrow> nat \<Rightarrow> state \<Rightarrow> outcome" where
  "forecast_loop forecast w s =
     (if w < length forecast then
        (case decode_ascii (forecast ! w) of Inl e \<Rightarrow> Raised e s | Inr txt \<Rightarrow>
           forecast_loop forecast (w + 1) (say txt s))
      else Returned s)"
  by pat_completeness auto
termination
  by (relation "measure (\<lambda>(forecast, w, s). length forecast - w)") auto

definition get_weather :: "config \<Rightarrow> signals \<Rightarrow> state \<Rightarrow> outcome" where
  "get_weather cfg env s =
     (let s1 = ampli_on_off (s\<lparr>is_playing := True\<rparr>);
          s2 = say (weather_airport cfg) s1;
          forecast = weather_stdout env (clock s2);
          s3 = runCmd [WEATHER ! 0, weather_ICAO cfg] s2
      in and_then (forecast_loop forecast 4 s3) (\<lambda>s4. Returned (power_down s4)))"

definition wrong_command :: "config \<Rightarrow> state \<Rightarrow> outcome" where
  "wrong_command cfg s =
     (let s1 = ampli_on_off (s\<lparr>is_playing := True\<rparr>)
      in case py_index (text_messages cfg) 8 of Inl e \<Rightarrow> Raised e s1 | Inr m \<Rightarrow>
           Returned (power_down (say m s1)))"

definition play_tts_sentence :: "config \<Rightarrow> int \<Rightarrow> state \<Rightarrow> outcome" where
  "play_tts_sentence cfg msg s =
     and_then (tts_message cfg msg (ampli_on_off (s\<lparr>is_playing := True\<rparr>)))
       (\<lambda>s1. Returned (power_down s1))"

subsection \<open>The interrupt handlers and the dispatcher\<close>

text \<open>\<^verbatim>\<open>reinit\<close> declares only \<^verbatim>\<open>pi\<close> and \<^verbatim>\<open>dialed_number\<close> global: its assignments to
  \<^verbatim>\<open>track_position\<close> and \<^verbatim>\<open>is_playing\<close> bind local names and leave the globals alone.\<close>

definition reinit :: "state \<Rightarrow> state" where
  "reinit s =
     (let s1 = pi_write pin_dial_counter_led PI_LOW s;
          s2 = pi_write pin_hangout_led PI_LOW s1;
          s3 = pi_write pin_dialer_led PI_LOW s2
      in s3\<lparr>dialed_number := []\<rparr>)"

text \<open>The lines that follow every gated action: \<^verbatim>\<open>cb_set_hangout()\<close>, then
  \<^verbatim>\<open>if pi.read(pin_hangout_led) is PI_HIGH: cb_set_rotary()\<close>.\<close>

definition enable_after :: "signals \<Rightarrow> state \<Rightarrow> state" where
  "enable_after env s =
     (let s1 = cb_set_hangout s
      in if pi_read env pin_hangout_led s1 = PI_HIGH then cb_set_rotary s1 else s1)"

definition check_number :: "config \<Rightarrow> signals \<Rightarrow> state \<Rightarrow> outcome" where
  "check_number cfg env s =
     (if dialed_number s \<noteq> [] then
        (case py_int (dialed_number s) of None \<Rightarrow> Raised ValueError s | Some v \<Rightarrow>
           if v = 666 then Returned (reinit (s\<lparr>dialed_number := []\<rparr>))
           else if v = 321 then
             and_then (play_track cfg (release_callbacks s)) (\<lambda>s1. Returned (enable_after env s1))
           else if v = 123 then
             and_then (play_all_tracks cfg env (release_callbacks s)) (\<lambda>s1. Returned (enable_after env s1))
           else if v = 124 then
             and_then (list_all_tracks cfg (release_callbacks s)) (\<lambda>s1. Returned (enable_after env s1))
           else if v \<le> tracks cfg + 400 \<and> v > 400 then
             and_then (play_track cfg (release_callbacks (s\<lparr>track_position := v - 401\<rparr>)))
               (\<lambda>s1. Returned (enable_after env s1))
           else if v = 111 then
             and_then (say_help cfg (release_callbacks s)) (\<lambda>s1. Returned (enable_after env s1))
           else if v = 999 then Returned (runCmd [REBOOT ! 0, REBOOT ! 1, REBOOT ! 2] s)
           else if v = 100 then
             and_then (get_weather cfg env (release_callbacks s)) (\<lambda>s1. Returned (enable_after env s1))
           else Returned s)
      else Returned s)"

text \<open>\<^verbatim>\<open>int(pulses / 2)\<close> divides as a float and truncates: for a count \<open>n \<ge> 0\<close> below
  \<open>2^53\<close> that is \<open>n div 2\<close>. \<^verbatim>\<open>pulses\<close> is only ever set to 0 and incremented, hence a
  natural number; \<^verbatim>\<open>pulses is not 0\<close> is \<open>pulses \<noteq> 0\<close> on CPython's cached small integers.\<close>

definition dial_detect :: "config \<Rightarrow> signals \<Rightarrow> state \<Rightarrow> outcome" where
  "dial_detect cfg env s =
     (if pi_read env pin_phone_hangout s = PI_HIGH then
        (let s1 = s\<lparr>dialer_status := pi_read env pin_dial_detect s\<rparr>;
             s2 = (if dialer_status s1 = PI_HIGH
                   then pi_write pin_dialer_led PI_HIGH (s1\<lparr>pulses := 0\<rparr>) else s1)
         in and_then
              (if length (dialed_number s2) \<ge> max_numbers then Returned (s2\<lparr>dialed_number := []\<rparr>)
               else if pulses s2 \<noteq> 0 then
                 (let s3 = (if pulses s2 = 20 then s2\<lparr>pulses := 0\<rparr> else s2)
                  in check_number cfg env
                       (s3\<lparr>dialed_number := dialed_number s3 @ str_nat (pulses s3 div 2)\<rparr>))
               else Returned s2)
              (\<lambda>s4. Returned (pi_write pin_dialer_led PI_LOW s4)))
      else Returned s)"

definition pulse_count :: "state \<Rightarrow> state" where
  "pulse_count s = (if dialer_status s = PI_HIGH then s\<lparr>pulses := pulses s + 1\<rparr> else s)"

definition hangout :: "config \<Rightarrow> signals \<Rightarrow> state \<Rightarrow> outcome" where
  "hangout cfg env s =
     (if pi_read env pin_phone_hangout s = PI_HIGH then
        and_then (play_tts_sentence cfg 0 (pi_write pin_hangout_led PI_HIGH (release_callbacks s)))
          (\<lambda>s1. Returned (set_callbacks s1))
      else
        and_then (play_tts_sentence cfg 1 (release_callbacks s))
          (\<lambda>s1. Returned (cb_set_hangout (reinit (pi_write pin_hangout_led PI_LOW s1)))))"

text \<open>
  The module's initial globals followed by \<^verbatim>\<open>initGPIO\<close>: the callbacks are set, the
  configuration is loaded (the parameter \<open>cfg\<close> of every operation) and \<^verbatim>\<open>reinit\<close> is
  called. The levels \<open>g\<close> of the output pins at power-up and the \<open>clock\<close> are whatever
  they are then. \<^verbatim>\<open>dialer_status = False\<close> is not \<^verbatim>\<open>PI_HIGH\<close>, as \<open>PI_LOW\<close>.
\<close>

definition initGPIO :: "(nat \<Rightarrow> level) \<Rightarrow> nat \<Rightarrow> state" where
  "initGPIO g t =
     reinit (set_callbacks
       \<lparr>ampli_status = False, dialer_status = PI_LOW, pulses = 0, dialed_number = [],
        track_position = 0, is_playing = True,
        cb_hangout_handler = \<lparr>live = False, orphans = 0\<rparr>,
        cb_dialer_handler = \<lparr>live = False, orphans = 0\<rparr>,
        cb_counter_handler = \<lparr>live = False, orphans = 0\<rparr>,
        gpio = g, clock = t, trace = []\<rparr>)"

subsection \<open>Dialling\<close>

text \<open>
  One turn of the dial as the handlers see it: the dial-detect edge at the start,
  \<open>p\<close> edges on the counting pin, the dial-detect edge at the end. A digit \<open>d\<close> gives
  \<open>edges d\<close> counting edges: two per pulse, ten pulses for 0.
\<close>

definition turn :: "config \<Rightarrow> signals \<Rightarrow> nat \<Rightarrow> state \<Rightarrow> outcome" where
  "turn cfg env p s =
     and_then (dial_detect cfg env (idle s))
       (\<lambda>s1. dial_detect cfg env (idle ((pulse_count ^^ p) s1)))"

definition edges :: "nat \<Rightarrow> nat" where
  "edges d = (if d = 0 then 20 else 2 * d)"

fun dial :: "config \<Rightarrow> signals \<Rightarrow> nat list \<Rightarrow> state \<Rightarrow> outcome" where
  "dial cfg env [] s = Returned s"
| "dial cfg env (d # ds) s = and_then (turn cfg env (edges d) s) (dial cfg env ds)"

text \<open>
  The handset stays off the hook over \<open>n\<close> turns of the dial that follow time \<open>t\<close>, and
  the dial-detect pin reads high at the start and low at the end of each turn.
\<close>

fun dialling :: "signals \<Rightarrow> nat \<Rightarrow> nat \<Rightarrow> bool" where
  "dialling env t 0 = True"
| "dialling env t (Suc n) =
     (line_in env (t + 1) = PI_HIGH \<and> dial_in env (t + 1) = PI_HIGH \<and>
      line_in env (t + 2) = PI_HIGH \<and> dial_in env (t + 2) = PI_LOW \<and>
      dialling env (t + 2) n)"

text \<open>The states the program can be in: after \<^verbatim>\<open>initGPIO\<close>, any interrupt at any time.\<close>

inductive_set reachable :: "config \<Rightarrow> signals \<Rightarrow> state set" for cfg :: config and env :: signals where
  start: "initGPIO g t \<in> reachable cfg env"
| wait: "s \<in> reachable cfg env \<Longrightarrow> idle s \<in> reachable cfg env"
| line_edge: "s \<in> reachable cfg env \<Longrightarrow> final (hangout cfg env s) \<in> reachable cfg env"
| dial_edge: "s \<in> reachable cfg env \<Longrightarrow> final (dial_detect cfg env s) \<in> reachable cfg env"
| count_edge: "s \<in> reachable cfg env \<Longrightarrow> pulse_count s \<in> reachable cfg env"

subsection \<open>Reading the trace\<close>

text \<open>The seven events of one call of \<^verbatim>\<open>ampli_on_off\<close>.\<close>

definition ampli_pulses :: "event list" where
  "ampli_pulses =
     [Write pin_ampli_power PI_HIGH, Sleep 5000, Write pin_ampli_power PI_LOW, Sleep 2000,
      Write pin_ampli_mode PI_HIGH, Sleep 500, Write pin_ampli_mode PI_LOW]"

text \<open>The two commands that announce and play the track at index \<open>i\<close>.\<close>

definition announce_and_play :: "config \<Rightarrow> nat \<Rightarrow> event list" where
  "announce_and_play cfg i =
     [Run [TTS ! 0, TTS ! 1, text_messages cfg ! 4 @ '' '' @ track_titles cfg ! i],
      Run [PLAYER ! 0, music_path cfg @ track_list cfg ! i @ ''.mp3'']]"

text \<open>The external commands of a trace, in order.\<close>

fun commands :: "event list \<Rightarrow> string list list" where
  "commands [] = []"
| "commands (Run cmd # es) = cmd # commands es"
| "commands (e # es) = commands es"

subsection \<open>A playlist and two environments for the examples\<close>

definition demo_cfg :: config where
  "demo_cfg =
     \<lparr>text_messages = [''hello'', ''bye'', ''playlist'', ''playing the'', ''track'', ''next'',
        ''there are'', ''titles'', ''wrong number''],
      track_list = [''a'', ''b'', ''c''], track_titles = [''A'', ''B'', ''C''],
      help_messages = [''dial 123'', ''dial 124''], help_strings = 2, tracks = 3,
      music_path = ''/music/'', weather_airport = ''Linate'', weather_ICAO = ''LIML''\<rparr>"

text \<open>Six tracks, for the track-select examples.\<close>

definition demo_cfg6 :: config where
  "demo_cfg6 = demo_cfg\<lparr>track_list := [''a'', ''b'', ''c'', ''d'', ''e'', ''f''],
     track_titles := [''A'', ''B'', ''C'', ''D'', ''E'', ''F''], tracks := 6\<rparr>"

text \<open>The handset stays off the hook; the dial-detect pin is high at odd times (a turn
  starts) and low at even times (it ends).\<close>

definition off_hook :: signals where
  "off_hook = \<lparr>line_in = (\<lambda>t. PI_HIGH), dial_in = (\<lambda>t. if odd t then PI_HIGH else PI_LOW),
     weather_stdout = (\<lambda>t. [])\<rparr>"

text \<open>The same, but the handset is put down after time \<open>h\<close>.\<close>

definition hang_up_after :: "nat \<Rightarrow> signals" where
  "hang_up_after h = off_hook\<lparr>line_in := (\<lambda>t. if t \<le> h then PI_HIGH else PI_LOW)\<rparr>"

text \<open>The program after start-up, all output pins low.\<close>

definition started :: state where
  "started = initGPIO (\<lambda>pin. PI_LOW) 0"

subsection \<open>What an operation leaves alone\<close>

text \<open>\<open>keeps s s'\<close>: from \<open>s\<close> to \<open>s'\<close> the dialled number is unchanged and
  \<^verbatim>\<open>ampli_status\<close> has not become true.\<close>

definition keeps :: "state \<Rightarrow> state \<Rightarrow> bool" where
  "keeps s s' \<longleftrightarrow> dialed_number s' = dialed_number s \<and> (ampli_status s' \<longrightarrow> ampli_status s)"

section \<open>Basic facts\<close>

lemmas pin_defs = pin_hangout_led_def pin_ampli_mode_def pin_dial_counter_def
  pin_dial_detect_def pin_ampli_power_def pin_phone_hangout_def pin_dialer_led_def
  pin_dial_counter_led_def

declare str_nat.simps [simp del]
declare play_all_loop.simps [simp del]
declare list_loop.simps [simp del]
declare help_loop.simps [simp del]
declare forecast_loop.simps [simp del]

lemma pulse_count_funpow:
  "(pulse_count ^^ p) s = (if dialer_status s = PI_HIGH then s\<lparr>pulses := pulses s + p\<rparr> else s)"
  by (induction p arbitrary: s) (auto simp: pulse_count_def funpow_swap1)

lemma commands_append [simp]: "commands (xs @ ys) = commands xs @ commands ys"
  by (induction xs rule: commands.induct) auto

lemma str_nat_digit: "n < 10 \<Longrightarrow> str_nat n = [digit_char n]"
  by (simp add: str_nat.simps)

lemma ampli_on_off_eq:
  "ampli_on_off s = s\<lparr>ampli_status := False,
     gpio := (gpio s)(pin_ampli_power := PI_LOW, pin_ampli_mode := PI_LOW),
     clock := clock s + 3, trace := trace s @ ampli_pulses\<rparr>"
  by (cases s) (simp add: ampli_on_off_def pi_write_def sleep_def ampli_pulses_def pin_defs)

lemma keeps_refl: "keeps s s"
  by (simp add: keeps_def)

lemma keeps_trans: "keeps s s1 \<Longrightarrow> keeps s1 s2 \<Longrightarrow> keeps s s2"
  by (auto simp: keeps_def)

lemma keeps_and_then:
  assumes "keeps s (final x)" and "\<And>s1. keeps s1 (g s1)"
  shows "keeps s (final (and_then x (\<lambda>s1. Returned (g s1))))"
  using assms by (cases x) (auto simp: keeps_def)

lemma keeps_ampli_on_off: "keeps s (ampli_on_off s)"
  by (simp add: keeps_def ampli_on_off_eq)

lemma keeps_power_down: "keeps s (power_down s)"
  by (simp add: keeps_def power_down_def ampli_on_off_eq)

lemma keeps_say: "keeps s (say msg s)"
  by (simp add: keeps_def say_def runCmd_def)

lemma keeps_release: "keeps s (release_callbacks s)"
  by (simp add: keeps_def release_callbacks_def pi_write_def)

lemma keeps_enable_after: "keeps s (enable_after env s)"
  by (simp add: keeps_def enable_after_def cb_set_hangout_def cb_set_rotary_def pi_write_def Let_def)

lemma keeps_play_all_loop: "keeps s (final (play_all_loop cfg env s))"
proof (induction cfg env s rule: play_all_loop.induct)
  case (1 cfg env s)
  note IH = "1.IH" [OF _ _ _ _ refl refl refl, simplified]
  have step: "keeps s ((runCmd c (say a s))\<lparr>track_position := p\<rparr>)" for c a p
    by (simp add: keeps_def say_def runCmd_def)
  show ?case
    apply (subst play_all_loop.simps)
    apply (simp add: keeps_refl keeps_say step Let_def split: sum.splits)
    apply (intro conjI impI allI)
    apply (rule keeps_trans [OF step IH])
       apply simp_all
    done
qed

lemma keeps_list_loop: "keeps s (final (list_loop cfg counter s))"
proof (induction cfg counter s rule: list_loop.induct)
  case (1 cfg counter s)
  show ?case
    apply (subst list_loop.simps)
    apply (simp add: keeps_refl split: sum.splits)
    apply (intro conjI impI allI)
    apply (rule keeps_trans [OF keeps_say "1.IH" [simplified]])
     apply simp_all
    done
qed

lemma keeps_help_loop: "keeps s (final (help_loop cfg counter s))"
proof (induction cfg counter s rule: help_loop.induct)
  case (1 cfg counter s)
  show ?case
    apply (subst help_loop.simps)
    apply (simp add: keeps_refl split: sum.splits)
    apply (intro conjI impI allI)
    apply (rule keeps_trans [OF keeps_say "1.IH" [simplified]])
     apply simp_all
    done
qed

lemma keeps_forecast_loop: "keeps s (final (forecast_loop forecast w s))"
proof (induction forecast w s rule: forecast_loop.induct)
  case (1 forecast w s)
  show ?case
    apply (subst forecast_loop.simps)
    apply (simp add: keeps_refl split: sum.splits)
    apply (intro conjI impI allI)
    apply (rule keeps_trans [OF keeps_say "1.IH" [simplified]])
     apply simp_all
    done
qed

lemma keeps_start: "keeps s (ampli_on_off (s\<lparr>is_playing := True\<rparr>))"
  by (simp add: keeps_def ampli_on_off_eq)

lemma keeps_play_track: "keeps s (final (play_track cfg s))"
  by (simp add: keeps_def play_track_def Let_def ampli_on_off_eq power_down_def say_def runCmd_def
      split: sum.splits)

lemma keeps_play_all_tracks: "keeps s (final (play_all_tracks cfg env s))"
proof -
  have "keeps s (final (play_all_loop cfg env
      (say msg ((ampli_on_off (s\<lparr>is_playing := True\<rparr>))\<lparr>track_position := 0\<rparr>))))" for msg
    by (rule keeps_trans [OF _ keeps_play_all_loop])
       (simp add: keeps_def say_def runCmd_def ampli_on_off_eq)
  then have "keeps s (final (and_then (play_all_loop cfg env
      (say msg ((ampli_on_off (s\<lparr>is_playing := True\<rparr>))\<lparr>track_position := 0\<rparr>)))
      (\<lambda>s3. Returned (power_down s3))))" for msg
    by (rule keeps_and_then) (rule keeps_power_down)
  moreover have "keeps s ((ampli_on_off (s\<lparr>is_playing := True\<rparr>))\<lparr>track_position := 0\<rparr>)"
    by (simp add: keeps_def ampli_on_off_eq)
  ultimately show ?thesis
    by (simp add: play_all_tracks_def Let_def split: sum.splits)
qed

lemma keeps_list_all_tracks: "keeps s (final (list_all_tracks cfg s))"
proof -
  have "keeps s (final (list_loop cfg 0 (say msg (ampli_on_off (s\<lparr>is_playing := True\<rparr>)))))" for msg
    by (rule keeps_trans [OF keeps_trans [OF keeps_start keeps_say] keeps_list_loop])
  then have "keeps s (final (and_then (list_loop cfg 0 (say msg (ampli_on_off (s\<lparr>is_playing := True\<rparr>))))
      (\<lambda>s2. Returned (power_down s2))))" for msg
    by (rule keeps_and_then) (rule keeps_power_down)
  then show ?thesis
    by (simp add: list_all_tracks_def Let_def keeps_start split: sum.splits)
qed

lemma keeps_say_help: "keeps s (final (say_help cfg s))"
proof -
  have "keeps s (final (help_loop cfg 0 (ampli_on_off (s\<lparr>is_playing := True\<rparr>))))"
    by (rule keeps_trans [OF keeps_start keeps_help_loop])
  then show ?thesis
    unfolding say_help_def by (rule keeps_and_then) (rule keeps_power_down)
qed

lemma keeps_get_weather: "keeps s (final (get_weather cfg env s))"
proof -
  have "keeps s (runCmd c (say msg (ampli_on_off (s\<lparr>is_playing := True\<rparr>))))" for c msg
    by (simp add: keeps_def runCmd_def say_def ampli_on_off_eq)
  then have "keeps s (final (forecast_loop f 4 (runCmd c (say msg (ampli_on_off (s\<lparr>is_playing := True\<rparr>))))))"
    for f c msg
    by (rule keeps_trans [OF _ keeps_forecast_loop])
  then show ?thesis
    unfolding get_weather_def Let_def by (rule keeps_and_then) (rule keeps_power_down)
qed

lemma keeps_play_tts_sentence: "keeps s (final (play_tts_sentence cfg msg s))"
proof -
  have "keeps s1 (final (tts_message cfg msg s1))" for s1
    by (simp add: tts_message_def keeps_refl keeps_say split: sum.splits)
  then have "keeps s (final (tts_message cfg msg (ampli_on_off (s\<lparr>is_playing := True\<rparr>))))"
    by (rule keeps_trans [OF keeps_start])
  then show ?thesis
    unfolding play_tts_sentence_def
    by (rule keeps_and_then) (rule keeps_power_down)
qed

lemma keeps_gated:
  assumes "\<And>s1. keeps s1 (final (act s1))"
  shows "keeps s (final (and_then (act (release_callbacks s)) (\<lambda>s1. Returned (enable_after env s1))))"
proof -
  have "keeps s (final (act (release_callbacks s)))"
    by (rule keeps_trans [OF keeps_release assms])
  then show ?thesis
    by (rule keeps_and_then) (rule keeps_enable_after)
qed

lemma keeps_select: "keeps s (final (and_then (play_track cfg (release_callbacks (s\<lparr>track_position := p\<rparr>)))
     (\<lambda>s1. Returned (enable_after env s1))))"
proof -
  have "keeps s (s\<lparr>track_position := p\<rparr>)"
    by (simp add: keeps_def)
  then show ?thesis
    by (rule keeps_trans) (rule keeps_gated [OF keeps_play_track])
qed

lemma keeps_reboot: "keeps s (runCmd c s)"
  by (simp add: keeps_def runCmd_def)

lemmas keeps_gated_actions =
  keeps_gated [of "play_track cfg", OF keeps_play_track]
  keeps_gated [of "play_all_tracks cfg env", OF keeps_play_all_tracks]
  keeps_gated [of "list_all_tracks cfg", OF keeps_list_all_tracks]
  keeps_gated [of "say_help cfg", OF keeps_say_help]
  keeps_gated [of "get_weather cfg env", OF keeps_get_weather]
  for cfg env

lemma keeps_check_number:
  "py_int (dialed_number s) \<noteq> Some 666 \<Longrightarrow> keeps s (final (check_number cfg env s))"
  by (simp add: check_number_def keeps_refl keeps_reboot keeps_select keeps_gated_actions
      split: option.splits)

lemma reinit_eq:
  "reinit s = s\<lparr>dialed_number := [],
     gpio := (gpio s)(pin_dial_counter_led := PI_LOW, pin_hangout_led := PI_LOW, pin_dialer_led := PI_LOW),
     trace := trace s @ [Write pin_dial_counter_led PI_LOW, Write pin_hangout_led PI_LOW,
       Write pin_dialer_led PI_LOW]\<rparr>"
  by (cases s) (simp add: reinit_def pi_write_def)

lemma check_number_reset:
  "py_int (dialed_number s) = Some 666 \<Longrightarrow>
     check_number cfg env s = Returned (reinit (s\<lparr>dialed_number := []\<rparr>))"
  by (auto simp: check_number_def py_int_def)

lemma check_number_ampli_status:
  "ampli_status (final (check_number cfg env s)) \<longrightarrow> ampli_status s"
proof (cases "py_int (dialed_number s) = Some 666")
  case True
  then show ?thesis by (simp add: check_number_reset reinit_eq)
next
  case False
  then show ?thesis using keeps_check_number [of s cfg env] by (simp add: keeps_def)
qed

lemma check_number_length:
  "length (dialed_number (final (check_number cfg env s))) \<le> length (dialed_number s)"
proof (cases "py_int (dialed_number s) = Some 666")
  case True
  then show ?thesis by (simp add: check_number_reset reinit_eq)
next
  case False
  then show ?thesis using keeps_check_number [of s cfg env] by (simp add: keeps_def)
qed

lemma turn_eq:
  assumes "line_in env (clock s + 1) = PI_HIGH" "dial_in env (clock s + 1) = PI_HIGH"
    "line_in env (clock s + 2) = PI_HIGH" "dial_in env (clock s + 2) = PI_LOW" "0 < p"
  shows "turn cfg env p s =
     and_then (check_number cfg env
       (s\<lparr>dialer_status := PI_LOW, pulses := (if p = 20 then 0 else p),
          dialed_number := (if length (dialed_number s) \<ge> 3 then [] else dialed_number s)
             @ str_nat ((if p = 20 then 0 else p) div 2),
          gpio := (gpio s)(pin_dialer_led := PI_LOW), clock := clock s + 2,
          trace := trace s @ [Write pin_dialer_led PI_HIGH, Write pin_dialer_led PI_LOW]\<rparr>))
       (\<lambda>s1. Returned (pi_write pin_dialer_led PI_LOW s1))"
  using assms
  by (cases s) (simp add: turn_def dial_detect_def idle_def pi_read_def pin_defs max_numbers_def
      pulse_count_funpow pi_write_def Let_def)

lemma digit_val_le: "digit_val c = Some d \<Longrightarrow> d \<le> 9"
  by (auto simp: digit_val_def split: if_splits)

lemma py_int_acc_bound: "py_int_acc acc cs = Some v \<Longrightarrow> v < (acc + 1) * 10 ^ length cs"
proof (induction cs arbitrary: acc)
  case Nil
  then show ?case by simp
next
  case (Cons c cs)
  from Cons.prems obtain d where d: "digit_val c = Some d" and r: "py_int_acc (10 * acc + d) cs = Some v"
    by (auto split: option.splits)
  have "v < (10 * acc + d + 1) * 10 ^ length cs"
    using Cons.IH [OF r] by simp
  also have "\<dots> \<le> (10 * acc + 10) * 10 ^ length cs"
    using digit_val_le [OF d] by (intro mult_right_mono) auto
  finally show ?case by (simp add: algebra_simps)
qed

lemma py_int_three_digits:
  assumes "py_int b = Some v" and "100 \<le> v"
  shows "3 \<le> length b"
proof (rule ccontr)
  assume "\<not> 3 \<le> length b"
  then have len: "length b \<le> 2" by simp
  from assms(1) obtain n where n: "py_int_acc 0 b = Some n" and v: "v = int n"
    by (auto simp: py_int_def split: if_splits)
  have "n < 10 ^ length b"
    using py_int_acc_bound [OF n] by simp
  also have "\<dots> \<le> (10::nat) ^ 2"
    using len by (intro power_increasing) auto
  finally show False using assms(2) v by simp
qed

lemma dial_detect_at_capacity:
  assumes "line_in env (clock s) = PI_HIGH" and "3 \<le> length (dialed_number s)"
  shows "dialed_number (final (dial_detect cfg env s)) = []"
  using assms
  by (simp add: dial_detect_def pi_read_def pin_defs max_numbers_def pi_write_def Let_def)

lemmas started_eval = started_def initGPIO_def reinit_eq set_callbacks_def pi_write_def callback_def
lemmas dial_eval = turn_def edges_def dial_detect_def idle_def pi_read_def pin_defs max_numbers_def
  pulse_count_funpow check_number_def py_int_def digit_val_def str_nat.simps digit_char_def Let_def
lemmas action_eval = release_callbacks_def cancel_def ampli_on_off_def sleep_def py_index_def
  say_def runCmd_def power_down_def enable_after_def cb_set_hangout_def cb_set_rotary_def TTS_def
  PLAYER_def str_int_def


lemma final_and_then_Returned:
  "final (and_then x (\<lambda>s1. Returned (g s1))) = (case x of Returned s1 \<Rightarrow> g s1 | Raised e s1 \<Rightarrow> s1)"
  by (cases x) simp_all

lemma after_led:
  "dialed_number (final (and_then x (\<lambda>s1. Returned (pi_write pin l s1)))) = dialed_number (final x)"
  "ampli_status (final (and_then x (\<lambda>s1. Returned (pi_write pin l s1)))) = ampli_status (final x)"
  by (cases x; simp add: pi_write_def)+

lemma pi_write_sel [simp]:
  "dialed_number (pi_write pin l s) = dialed_number s"
  "ampli_status (pi_write pin l s) = ampli_status s"
  "pulses (pi_write pin l s) = pulses s"
  "dialer_status (pi_write pin l s) = dialer_status s"
  "track_position (pi_write pin l s) = track_position s"
  "is_playing (pi_write pin l s) = is_playing s"
  "clock (pi_write pin l s) = clock s"
  by (simp_all add: pi_write_def)

lemma py_int_digit: "d < 10 \<Longrightarrow> py_int [digit_char d] = Some (int d)"
proof -
  assume "d < 10"
  then have "d \<in> {0, 1, 2, 3, 4, 5, 6, 7, 8, 9}" by auto
  then show ?thesis
    by (auto simp: py_int_def digit_char_def digit_val_def)
qed

lemma check_number_one_digit:
  assumes "dialed_number s = [digit_char d]" and "d < 10"
  shows "check_number cfg env s = Returned s"
  using assms by (simp add: check_number_def py_int_digit)

lemma dial_detect_length:
  assumes "length (dialed_number s) \<le> 3" and "pulses s \<le> 20"
  shows "length (dialed_number (final (dial_detect cfg env s))) \<le> 3"
proof -
  have digit: "length (str_nat (q div 2)) = 1" if "q \<le> 20" "q \<noteq> 20" for q
    using that by (simp add: str_nat_digit)
  have app: "length (dialed_number (final (check_number cfg env (s1\<lparr>dialed_number := b @ str_nat (q div 2)\<rparr>)))) \<le> 3"
    if "length b < 3" "q \<le> 20" "q \<noteq> 20" for s1 b q
    using check_number_length [of cfg env "s1\<lparr>dialed_number := b @ str_nat (q div 2)\<rparr>"]
      digit [OF that(2,3)] that(1) by simp
  have app0: "length (dialed_number (final (check_number cfg env (s1\<lparr>dialed_number := b @ str_nat 0\<rparr>)))) \<le> 3"
    if "length b < 3" for s1 b
    using app [of b 0 s1] that by simp
  show ?thesis
    using assms
    by (simp add: dial_detect_def Let_def after_led max_numbers_def app app0)
qed

lemma check_number_not_ampli:
  "\<not> ampli_status s \<Longrightarrow> ampli_status (final (check_number cfg env s)) = False"
  using check_number_ampli_status [of cfg env s] by simp

lemma dial_detect_ampli_status:
  "\<not> ampli_status s \<Longrightarrow> \<not> ampli_status (final (dial_detect cfg env s))"
  by (simp add: dial_detect_def Let_def after_led check_number_not_ampli)

lemma hangout_bounds:
  "length (dialed_number (final (hangout cfg env s))) \<le> length (dialed_number s) \<and>
   (ampli_status (final (hangout cfg env s)) \<longrightarrow> ampli_status s)"
proof (cases "pi_read env pin_phone_hangout s = PI_HIGH")
  case True
  have "keeps s (pi_write pin_hangout_led PI_HIGH (release_callbacks s))"
    by (simp add: keeps_def release_callbacks_def)
  then have "keeps s (final (play_tts_sentence cfg 0 (pi_write pin_hangout_led PI_HIGH (release_callbacks s))))"
    by (rule keeps_trans) (rule keeps_play_tts_sentence)
  then have "keeps s (final (and_then
      (play_tts_sentence cfg 0 (pi_write pin_hangout_led PI_HIGH (release_callbacks s)))
      (\<lambda>s1. Returned (set_callbacks s1))))"
    by (rule keeps_and_then) (simp add: keeps_def set_callbacks_def)
  then have "keeps s (final (hangout cfg env s))"
    using True by (simp add: hangout_def)
  then show ?thesis by (simp add: keeps_def)
next
  case False
  have k: "keeps s (final (play_tts_sentence cfg 1 (release_callbacks s)))"
    by (rule keeps_trans [OF keeps_release keeps_play_tts_sentence])
  show ?thesis
    using False k
    by (cases "play_tts_sentence cfg 1 (release_callbacks s)")
       (simp_all add: hangout_def keeps_def reinit_eq cb_set_hangout_def)
qed

lemma reachable_not_ampli: "s \<in> reachable cfg env \<Longrightarrow> \<not> ampli_status s"
proof (induction rule: reachable.induct)
  case (start g t)
  show ?case by (simp add: initGPIO_def reinit_eq set_callbacks_def)
next
  case (wait s)
  then show ?case by (simp add: idle_def)
next
  case (line_edge s)
  then show ?case using hangout_bounds [of cfg env s] by simp
next
  case (dial_edge s)
  then show ?case by (simp add: dial_detect_ampli_status)
next
  case (count_edge s)
  then show ?case by (simp add: pulse_count_def)
qed

lemma check_number_quiet:
  assumes "py_int (dialed_number s) = Some v" and "v < 100"
  shows "check_number cfg env s = Returned s"
  using assms by (auto simp: check_number_def)

lemma turn_quiet:
  assumes "dialling env (clock s) (Suc n)" and "0 < p"
    and "b = (if 3 \<le> length (dialed_number s) then [] else dialed_number s)
           @ str_nat ((if p = 20 then 0 else p) div 2)"
    and "py_int b = Some v" and "v < 100"
  shows "turn cfg env p s =
     Returned (s\<lparr>dialer_status := PI_LOW, pulses := (if p = 20 then 0 else p),
        dialed_number := b, gpio := (gpio s)(pin_dialer_led := PI_LOW), clock := clock s + 2,
        trace := trace s @ [Write pin_dialer_led PI_HIGH, Write pin_dialer_led PI_LOW,
          Write pin_dialer_led PI_LOW]\<rparr>)"
proof -
  let ?s1 = "s\<lparr>dialer_status := PI_LOW, pulses := (if p = 20 then 0 else p),
          dialed_number := (if length (dialed_number s) \<ge> 3 then [] else dialed_number s)
             @ str_nat ((if p = 20 then 0 else p) div 2),
          gpio := (gpio s)(pin_dialer_led := PI_LOW), clock := clock s + 2,
          trace := trace s @ [Write pin_dialer_led PI_HIGH, Write pin_dialer_led PI_LOW]\<rparr>"
  have "check_number cfg env ?s1 = Returned ?s1"
    using assms(3-5) by (intro check_number_quiet [of _ v]) simp_all
  moreover have "turn cfg env p s =
     and_then (check_number cfg env ?s1) (\<lambda>s1. Returned (pi_write pin_dialer_led PI_LOW s1))"
    using assms(1,2) by (intro turn_eq) simp_all
  ultimately show ?thesis
    using assms(3) by (cases s) (simp add: pi_write_def)
qed

lemma pulse_count_length: "dialed_number (pulse_count s) = dialed_number s"
  by (simp add: pulse_count_def)

lemma py_index_nat:
  "i < length xs \<Longrightarrow> py_index xs (int i) = Inr (xs ! i)"
  by (simp add: py_index_def)

lemma power_down_eq:
  "is_playing s \<Longrightarrow> power_down s = s\<lparr>ampli_status := False, is_playing := False,
     gpio := (gpio s)(pin_ampli_power := PI_LOW, pin_ampli_mode := PI_LOW),
     clock := clock s + 3, trace := trace s @ ampli_pulses\<rparr>"
  by (cases s) (simp add: power_down_def ampli_on_off_eq)

lemma play_track_eq:
  assumes "4 < length (text_messages cfg)" and "track_position s = int i"
    and "i < length (track_titles cfg)" and "i < length (track_list cfg)"
  shows "play_track cfg s =
     Returned (s\<lparr>ampli_status := False, is_playing := False,
        track_position := (if int i + 1 = tracks cfg then 0 else int i + 1),
        gpio := (gpio s)(pin_ampli_power := PI_LOW, pin_ampli_mode := PI_LOW),
        clock := clock s + 8,
        trace := trace s @ ampli_pulses @ announce_and_play cfg i @ ampli_pulses\<rparr>)"
proof -
  have m: "py_index (text_messages cfg) 4 = Inr (text_messages cfg ! 4)"
    using assms(1) py_index_nat [of 4 "text_messages cfg"] by simp
  show ?thesis
    using assms
    by (cases s)
       (simp add: play_track_def Let_def m py_index_nat ampli_on_off_eq power_down_eq say_def
          runCmd_def announce_and_play_def)
qed

lemma and_then_Returned [simp]: "and_then x Returned = x"
  by (cases x) simp_all

lemma digit_val_digit_char: "d < 10 \<Longrightarrow> digit_val (digit_char d) = Some d"
proof -
  assume "d < 10"
  then have "d \<in> {0, 1, 2, 3, 4, 5, 6, 7, 8, 9}" by auto
  then show ?thesis
    by (auto simp: digit_char_def digit_val_def)
qed

lemma py_int_digits:
  assumes "d1 < 10" and "d2 < 10"
  shows "py_int [digit_char d1, digit_char d2] = Some (int (10 * d1 + d2))"
    and "d3 < 10 \<Longrightarrow> py_int [digit_char d1, digit_char d2, digit_char d3] = Some (int (100 * d1 + 10 * d2 + d3))"
  using assms by (simp_all add: py_int_def digit_val_digit_char)

lemma edges_digit:
  assumes "d < 10"
  shows "0 < edges d" and "str_nat ((if edges d = 20 then 0 else edges d) div 2) = [digit_char d]"
  using assms by (auto simp: edges_def str_nat_digit)

lemma commands_ampli_pulses [simp]: "commands ampli_pulses = []"
  by (simp add: ampli_pulses_def)

text \<open>Two digits dialled on an empty or a full buffer: no command is run, the buffer holds
  the two digits, and four units of time have passed.\<close>

lemma two_digits:
  assumes "dialed_number s = [] \<or> 3 \<le> length (dialed_number s)"
    and "dialling env (clock s) (Suc (Suc n))" and "d1 < 10" and "d2 < 10"
  shows "\<exists>s1 s2. turn cfg env (edges d1) s = Returned s1 \<and> turn cfg env (edges d2) s1 = Returned s2 \<and>
    dialed_number s2 = [digit_char d1, digit_char d2] \<and> clock s2 = clock s + 4 \<and>
    track_position s2 = track_position s \<and> commands (trace s2) = commands (trace s) \<and>
    gpio s2 pin_hangout_led = gpio s pin_hangout_led \<and>
    cb_hangout_handler s2 = cb_hangout_handler s \<and> cb_dialer_handler s2 = cb_dialer_handler s \<and>
    cb_counter_handler s2 = cb_counter_handler s \<and> ampli_status s2 = ampli_status s \<and>
    is_playing s2 = is_playing s"
proof -
  let ?q1 = "if edges d1 = 20 then 0 else edges d1"
  let ?q2 = "if edges d2 = 20 then 0 else edges d2"
  define s1 where "s1 = s\<lparr>dialer_status := PI_LOW, pulses := ?q1,
        dialed_number := [digit_char d1], gpio := (gpio s)(pin_dialer_led := PI_LOW), clock := clock s + 2,
        trace := trace s @ [Write pin_dialer_led PI_HIGH, Write pin_dialer_led PI_LOW,
          Write pin_dialer_led PI_LOW]\<rparr>"
  define s2 where "s2 = s1\<lparr>dialer_status := PI_LOW, pulses := ?q2,
        dialed_number := [digit_char d1, digit_char d2], gpio := (gpio s1)(pin_dialer_led := PI_LOW),
        clock := clock s1 + 2,
        trace := trace s1 @ [Write pin_dialer_led PI_HIGH, Write pin_dialer_led PI_LOW,
          Write pin_dialer_led PI_LOW]\<rparr>"
  have b1: "[digit_char d1] = (if 3 \<le> length (dialed_number s) then [] else dialed_number s)
           @ str_nat (?q1 div 2)"
    using assms(1) edges_digit(2) [OF assms(3)] by auto
  have t1: "turn cfg env (edges d1) s = Returned s1"
    unfolding s1_def
    using py_int_digit [OF assms(3)] assms(3)
    by (intro turn_quiet [OF assms(2) edges_digit(1) [OF assms(3)] b1, where v = "int d1"]) simp_all
  have w2: "dialling env (clock s1) (Suc n)"
    using assms(2) by (simp add: s1_def)
  have b2: "[digit_char d1, digit_char d2] = (if 3 \<le> length (dialed_number s1) then [] else dialed_number s1)
           @ str_nat (?q2 div 2)"
    using edges_digit(2) [OF assms(4)] by (simp add: s1_def)
  have t2: "turn cfg env (edges d2) s1 = Returned s2"
    unfolding s2_def
    using py_int_digits(1) [OF assms(3,4)] assms(3,4)
    by (intro turn_quiet [OF w2 edges_digit(1) [OF assms(4)] b2, where v = "int (10 * d1 + d2)"]) simp_all
  show ?thesis
    using t1 t2 by (intro exI [of _ s1] exI [of _ s2]) (simp add: s1_def s2_def pin_defs)
qed

lemma release_callbacks_sel [simp]:
  "dialed_number (release_callbacks s) = dialed_number s"
  "track_position (release_callbacks s) = track_position s"
  "clock (release_callbacks s) = clock s"
  "commands (trace (release_callbacks s)) = commands (trace s)"
  "gpio (release_callbacks s) pin_hangout_led = gpio s pin_hangout_led"
  "cb_hangout_handler (release_callbacks s) = cancel (cb_hangout_handler s)"
  "cb_dialer_handler (release_callbacks s) = cancel (cb_dialer_handler s)"
  "cb_counter_handler (release_callbacks s) = cancel (cb_counter_handler s)"
  by (simp_all add: release_callbacks_def pi_write_def pin_defs)

lemma enable_after_sel [simp]:
  "dialed_number (enable_after env s) = dialed_number s"
  "track_position (enable_after env s) = track_position s"
  "clock (enable_after env s) = clock s"
  "is_playing (enable_after env s) = is_playing s"
  "ampli_status (enable_after env s) = ampli_status s"
  "commands (trace (enable_after env s)) = commands (trace s)"
  "gpio (enable_after env s) pin_hangout_led = gpio s pin_hangout_led"
  "cb_hangout_handler (enable_after env s) = callback (cb_hangout_handler s)"
  "cb_dialer_handler (enable_after env s) =
     (if gpio s pin_hangout_led = PI_HIGH then callback (cb_dialer_handler s) else cb_dialer_handler s)"
  "cb_counter_handler (enable_after env s) =
     (if gpio s pin_hangout_led = PI_HIGH then callback (cb_counter_handler s) else cb_counter_handler s)"
  by (simp_all add: enable_after_def cb_set_hangout_def cb_set_rotary_def pi_write_def pi_read_def
      pin_defs Let_def)

lemma commands_announce_and_play:
  "commands (announce_and_play cfg i) =
     [[TTS ! 0, TTS ! 1, text_messages cfg ! 4 @ '' '' @ track_titles cfg ! i],
      [PLAYER ! 0, music_path cfg @ track_list cfg ! i @ ''.mp3'']]"
  by (simp add: announce_and_play_def)

text \<open>The dispatcher on the next-track code and on a track-select code: it plays the track
  at index \<open>i\<close>, which is the play position for 321 and \<open>v - 401\<close> for a track-select code,
  and leaves the play position at the following index, or at 0 after the last track.\<close>

lemma check_number_plays:
  assumes v: "py_int (dialed_number s) = Some v"
    and sel: "v = 321 \<and> track_position s = int i \<or>
              400 < v \<and> v \<le> tracks cfg + 400 \<and> v \<noteq> 666 \<and> v - 401 = int i"
    and msgs: "4 < length (text_messages cfg)"
    and lists: "i < length (track_titles cfg)" "i < length (track_list cfg)"
  shows "\<exists>s'. check_number cfg env s = Returned s' \<and>
    track_position s' = (if int i + 1 = tracks cfg then 0 else int i + 1) \<and>
    commands (trace s') = commands (trace s) @ commands (announce_and_play cfg i) \<and>
    dialed_number s' = dialed_number s \<and> clock s' = clock s + 8 \<and>
    \<not> is_playing s' \<and> \<not> ampli_status s' \<and>
    gpio s' pin_hangout_led = gpio s pin_hangout_led \<and>
    cb_hangout_handler s' = callback (cancel (cb_hangout_handler s)) \<and>
    cb_dialer_handler s' = (if gpio s pin_hangout_led = PI_HIGH
       then callback (cancel (cb_dialer_handler s)) else cancel (cb_dialer_handler s)) \<and>
    cb_counter_handler s' = (if gpio s pin_hangout_led = PI_HIGH
       then callback (cancel (cb_counter_handler s)) else cancel (cb_counter_handler s))"
proof -
  define s0 where "s0 = release_callbacks (s\<lparr>track_position := int i\<rparr>)"
  have ne: "dialed_number s \<noteq> []"
    using v by (auto simp: py_int_def)
  have cn: "check_number cfg env s =
      and_then (play_track cfg s0) (\<lambda>s1. Returned (enable_after env s1))"
  proof -
    from sel consider "v = 321" "track_position s = int i"
      | "400 < v" "v \<le> tracks cfg + 400" "v \<noteq> 666" "v - 401 = int i" by blast
    then show ?thesis
    proof cases
      case 1
      then have e: "s\<lparr>track_position := int i\<rparr> = s" by simp
      show ?thesis unfolding s0_def e using 1(1) v ne by (simp add: check_number_def)
    next
      case 2
      then show ?thesis using v ne by (simp add: check_number_def s0_def)
    qed
  qed
  have tp: "track_position s0 = int i"
    by (simp add: s0_def)
  note pt = play_track_eq [OF msgs tp lists]
  have g: "gpio s0 pin_hangout_led = gpio s pin_hangout_led"
    "commands (trace s0) = commands (trace s)" "clock s0 = clock s" "dialed_number s0 = dialed_number s"
    "cb_hangout_handler s0 = cancel (cb_hangout_handler s)"
    "cb_dialer_handler s0 = cancel (cb_dialer_handler s)"
    "cb_counter_handler s0 = cancel (cb_counter_handler s)"
    by (simp_all add: s0_def release_callbacks_def pi_write_def pin_defs)
  show ?thesis
    unfolding cn pt
    by (simp add: g g [unfolded pin_defs] enable_after_sel [unfolded pin_defs] pin_defs)
qed

lemma third_digit_plays:
  assumes w: "dialling env (clock s) (Suc n)"
    and b: "dialed_number s = [digit_char d1, digit_char d2]"
    and d: "d1 < 10" "d2 < 10" "d3 < 10"
    and v: "v = int (100 * d1 + 10 * d2 + d3)"
    and sel: "v = 321 \<and> track_position s = int i \<or>
              400 < v \<and> v \<le> tracks cfg + 400 \<and> v \<noteq> 666 \<and> v - 401 = int i"
    and msgs: "4 < length (text_messages cfg)"
    and lists: "i < length (track_titles cfg)" "i < length (track_list cfg)"
  shows "\<exists>s'. turn cfg env (edges d3) s = Returned s' \<and>
    track_position s' = (if int i + 1 = tracks cfg then 0 else int i + 1) \<and>
    commands (trace s') = commands (trace s) @ commands (announce_and_play cfg i) \<and>
    dialed_number s' = [digit_char d1, digit_char d2, digit_char d3] \<and> clock s' = clock s + 10 \<and>
    \<not> is_playing s' \<and> \<not> ampli_status s' \<and>
    cb_hangout_handler s' = callback (cancel (cb_hangout_handler s)) \<and>
    cb_dialer_handler s' = (if gpio s pin_hangout_led = PI_HIGH
       then callback (cancel (cb_dialer_handler s)) else cancel (cb_dialer_handler s)) \<and>
    cb_counter_handler s' = (if gpio s pin_hangout_led = PI_HIGH
       then callback (cancel (cb_counter_handler s)) else cancel (cb_counter_handler s))"
proof -
  let ?q = "if edges d3 = 20 then 0 else edges d3"
  define s3 where "s3 = s\<lparr>dialer_status := PI_LOW, pulses := ?q,
          dialed_number := (if length (dialed_number s) \<ge> 3 then [] else dialed_number s)
             @ str_nat (?q div 2),
          gpio := (gpio s)(pin_dialer_led := PI_LOW), clock := clock s + 2,
          trace := trace s @ [Write pin_dialer_led PI_HIGH, Write pin_dialer_led PI_LOW]\<rparr>"
  have t: "turn cfg env (edges d3) s =
     and_then (check_number cfg env s3) (\<lambda>s1. Returned (pi_write pin_dialer_led PI_LOW s1))"
    unfolding s3_def using w edges_digit(1) [OF d(3)] by (intro turn_eq) simp_all
  have p3: "dialed_number s3 = [digit_char d1, digit_char d2, digit_char d3]"
    "track_position s3 = track_position s" "commands (trace s3) = commands (trace s)"
    "clock s3 = clock s + 2" "gpio s3 pin_hangout_led = gpio s pin_hangout_led"
    "cb_hangout_handler s3 = cb_hangout_handler s" "cb_dialer_handler s3 = cb_dialer_handler s"
    "cb_counter_handler s3 = cb_counter_handler s"
    using b edges_digit(2) [OF d(3)] by (simp_all add: s3_def pin_defs)
  have "py_int (dialed_number s3) = Some v"
    using py_int_digits(2) [OF d] by (simp add: p3 v)
  from check_number_plays [OF this _ msgs lists, of env] sel
  obtain s' where s': "check_number cfg env s3 = Returned s'"
    "track_position s' = (if int i + 1 = tracks cfg then 0 else int i + 1)"
    "commands (trace s') = commands (trace s3) @ commands (announce_and_play cfg i)"
    "dialed_number s' = dialed_number s3" "clock s' = clock s3 + 8"
    "\<not> is_playing s'" "\<not> ampli_status s'"
    "cb_hangout_handler s' = callback (cancel (cb_hangout_handler s3))"
    "cb_dialer_handler s' = (if gpio s3 pin_hangout_led = PI_HIGH
       then callback (cancel (cb_dialer_handler s3)) else cancel (cb_dialer_handler s3))"
    "cb_counter_handler s' = (if gpio s3 pin_hangout_led = PI_HIGH
       then callback (cancel (cb_counter_handler s3)) else cancel (cb_counter_handler s3))"
    unfolding p3(2) by blast
  show ?thesis
    unfolding t s'(1)
    by (rule exI [of _ "pi_write pin_dialer_led PI_LOW s'"])
       (simp add: s'(2-) p3 pi_write_def)
qed

lemma dialling_after_two: "dialling env t (Suc (Suc n)) \<Longrightarrow> dialling env (t + 4) n"
proof -
  assume "dialling env t (Suc (Suc n))"
  then have "dialling env (Suc (Suc (Suc (Suc t)))) n" by simp
  moreover have "Suc (Suc (Suc (Suc t))) = t + 4" by simp
  ultimately show ?thesis by (simp only:)
qed

lemma dial_Nil: "dial cfg env [] = Returned"
  by (rule ext) simp

lemma dial_three:
  assumes "turn cfg env (edges d1) s = Returned s1" and "turn cfg env (edges d2) s1 = Returned s2"
  shows "dial cfg env [d1, d2, d3] s = turn cfg env (edges d3) s2"
  using assms by (simp add: dial_Nil)

lemma reinit_keeps_position:
  "track_position (reinit s) = track_position s \<and> is_playing (reinit s) = is_playing s"
  by (simp add: reinit_eq)

lemma play_all_loop_until_hangup:
  assumes "4 < length (text_messages cfg)"
    and "track_position s = int i" and "i \<le> k" and "int k < tracks cfg"
    and "k < length (track_titles cfg)" and "k < length (track_list cfg)"
    and "\<forall>j. i \<le> j \<and> j < k \<longrightarrow> line_in env (clock s + 2 * (j - i) + 2) = PI_HIGH"
    and "line_in env (clock s + 2 * (k - i) + 2) = PI_LOW"
  shows "play_all_loop cfg env s =
     Returned (s\<lparr>track_position := int k + 1, clock := clock s + 2 * (k - i) + 2,
       trace := trace s @ concat (map (announce_and_play cfg) [i..<Suc k])\<rparr>)"
  using assms
proof (induction "k - i" arbitrary: i s)
  case 0
  then have ik: "i = k" by simp
  have m: "py_index (text_messages cfg) 4 = Inr (text_messages cfg ! 4)"
    using "0.prems"(1) py_index_nat [of 4 "text_messages cfg"] by simp
  show ?case
    using "0.prems" ik
    by (subst play_all_loop.simps, cases s)
       (simp add: m py_index_nat Let_def say_def runCmd_def pi_read_def pin_defs announce_and_play_def)
next
  case (Suc n)
  then have ik: "i < k" by simp
  have m: "py_index (text_messages cfg) 4 = Inr (text_messages cfg ! 4)"
    using Suc.prems(1) py_index_nat [of 4 "text_messages cfg"] by simp
  define s3 where "s3 = s\<lparr>track_position := int i + 1, clock := clock s + 2,
       trace := trace s @ announce_and_play cfg i\<rparr>"
  have hi: "line_in env (clock s + 2) = PI_HIGH"
    using Suc.prems(7) ik by (auto dest: spec [of _ i])
  have step: "play_all_loop cfg env s = play_all_loop cfg env s3"
    using Suc.prems ik hi
    by (subst play_all_loop.simps, cases s)
       (simp add: m py_index_nat Let_def say_def runCmd_def pi_read_def pin_defs
          announce_and_play_def s3_def)
  have high: "\<forall>j. Suc i \<le> j \<and> j < k \<longrightarrow> line_in env (clock s3 + 2 * (j - Suc i) + 2) = PI_HIGH"
  proof (intro allI impI)
    fix j assume j: "Suc i \<le> j \<and> j < k"
    then have "line_in env (clock s + 2 * (j - i) + 2) = PI_HIGH"
      using Suc.prems(7) by auto
    moreover have "clock s3 = clock s + 2"
      by (simp add: s3_def)
    then have "clock s3 + 2 * (j - Suc i) + 2 = clock s + 2 * (j - i) + 2"
      using j by arith
    ultimately show "line_in env (clock s3 + 2 * (j - Suc i) + 2) = PI_HIGH" by simp
  qed
  have low: "line_in env (clock s3 + 2 * (k - Suc i) + 2) = PI_LOW"
  proof -
    have "clock s3 = clock s + 2"
      by (simp add: s3_def)
    then have "clock s3 + 2 * (k - Suc i) + 2 = clock s + 2 * (k - i) + 2"
      using ik by arith
    then show ?thesis using Suc.prems(8) by simp
  qed
  have "play_all_loop cfg env s3 =
     Returned (s3\<lparr>track_position := int k + 1, clock := clock s3 + 2 * (k - Suc i) + 2,
       trace := trace s3 @ concat (map (announce_and_play cfg) [Suc i..<Suc k])\<rparr>)"
    using Suc.hyps(2) ik Suc.prems(1,4,5,6) high low
    by (intro Suc.hyps(1)) (simp_all add: s3_def)
  moreover have "[i..<Suc k] = i # [Suc i..<Suc k]"
    using ik by (simp add: upt_conv_Cons)
  moreover have "clock s + 2 + 2 * (k - Suc i) + 2 = clock s + 2 * (k - i) + 2"
    using ik by arith
  ultimately show ?case
    unfolding step by (cases s) (simp add: s3_def)
qed

text \<open>What the dispatcher's re-check does after a gated action: the line-monitor callback
  is registered again, and the two dial callbacks are registered again exactly when the
  LED output pin reads high; the line input is not read.\<close>

lemma enable_after_reads_led:
  "delivering (cb_hangout_handler (enable_after env s)) \<and>
   (cb_dialer_handler (enable_after env s) =
      (if gpio s pin_hangout_led = PI_HIGH then callback (cb_dialer_handler s) else cb_dialer_handler s)) \<and>
   (cb_counter_handler (enable_after env s) =
      (if gpio s pin_hangout_led = PI_HIGH then callback (cb_counter_handler s) else cb_counter_handler s))"
  by (simp add: delivering_def callback_def)

section \<open>The claims\<close>

subsection \<open>C1: interrupt delivery after a dispatched action\<close>

text \<open>
  Claim C1 fails on the code. After start-up the handset is lifted (the pick-up handler
  lights the hangout LED), 3, 2, 1 is dialled, and the handset is put down while the track
  plays. The dispatcher then reads the LED pin, which nothing has changed since the
  callbacks were cancelled, finds it high and registers the two dial callbacks again,
  with the line low.
\<close>

theorem dialing_restored_on_hook:
  "line_in (hang_up_after 14)
     (clock (final (dial demo_cfg (hang_up_after 14) [3, 2, 1]
        (idle (final (hangout demo_cfg (hang_up_after 14) started)))))) = PI_LOW \<and>
   delivering (cb_hangout_handler (final (dial demo_cfg (hang_up_after 14) [3, 2, 1]
        (idle (final (hangout demo_cfg (hang_up_after 14) started)))))) \<and>
   delivering (cb_dialer_handler (final (dial demo_cfg (hang_up_after 14) [3, 2, 1]
        (idle (final (hangout demo_cfg (hang_up_after 14) started)))))) \<and>
   delivering (cb_counter_handler (final (dial demo_cfg (hang_up_after 14) [3, 2, 1]
        (idle (final (hangout demo_cfg (hang_up_after 14) started))))))"
  by (simp add: started_eval dial_eval action_eval demo_cfg_def off_hook_def hang_up_after_def
      hangout_def play_tts_sentence_def tts_message_def play_track_def delivering_def)

text \<open>The other way round: the handset is already off the hook at start-up, so that no
  pick-up interrupt has lit the LED. After the track the line is still high and the dial
  callbacks stay cancelled.\<close>

lemma dialing_lost_off_hook:
  "line_in off_hook (clock (final (dial demo_cfg off_hook [3, 2, 1] started))) = PI_HIGH \<and>
   \<not> delivering (cb_dialer_handler (final (dial demo_cfg off_hook [3, 2, 1] started))) \<and>
   \<not> delivering (cb_counter_handler (final (dial demo_cfg off_hook [3, 2, 1] started)))"
  by (simp add: started_eval dial_eval action_eval demo_cfg_def off_hook_def
      play_track_def delivering_def)

subsection \<open>C2: the buffer after a matched command\<close>

text \<open>
  Claim C2, as the code has it. The dispatcher does not clear the buffer after a matched
  command: for each of the codes 321, 123, 124, 111, 100 and the track-select codes
  (above 400, at most 400 + \<^verbatim>\<open>tracks\<close>, 666 apart, which is the reset code and comes
  first), \<^verbatim>\<open>check_number\<close> returns or raises with \<^verbatim>\<open>dialed_number\<close> as it was.
  The buffer then holds three digits or more, and it is the next dial-detect interrupt
  taken off the hook that empties it.
\<close>

theorem dispatcher_leaves_buffer:
  assumes "py_int (dialed_number s) = Some v"
    and "v \<in> {321, 123, 124, 111, 100} \<or> (400 < v \<and> v \<le> tracks cfg + 400 \<and> v \<noteq> 666)"
  shows "dialed_number (final (check_number cfg env s)) = dialed_number s \<and>
    (dialed_number s' = dialed_number s \<and> line_in env' (clock s') = PI_HIGH \<longrightarrow>
       dialed_number (final (dial_detect cfg env' s')) = [])"
proof -
  from assms have "py_int (dialed_number s) \<noteq> Some 666" by auto
  then have "dialed_number (final (check_number cfg env s)) = dialed_number s"
    using keeps_check_number [of s cfg env] by (simp add: keeps_def)
  moreover from assms have "100 \<le> v" by auto
  then have "3 \<le> length (dialed_number s)"
    using py_int_three_digits [OF assms(1)] by simp
  ultimately show ?thesis
    by (simp add: dial_detect_at_capacity)
qed

text \<open>The theorem at the code 124, on the buffer \<open>''124''\<close> after start-up.\<close>

theorem dispatcher_leaves_buffer_witness:
  "py_int ''124'' = Some 124 \<and>
   dialed_number (final (check_number demo_cfg off_hook (started\<lparr>dialed_number := ''124''\<rparr>))) = ''124'' \<and>
   dialed_number (final (dial_detect demo_cfg off_hook (started\<lparr>dialed_number := ''124''\<rparr>))) = []"
  using dispatcher_leaves_buffer [where s = "started\<lparr>dialed_number := ''124''\<rparr>" and v = 124
      and cfg = demo_cfg and env = off_hook and s' = "started\<lparr>dialed_number := ''124''\<rparr>"
      and env' = off_hook]
  by (simp add: py_int_def digit_val_def demo_cfg_def off_hook_def)

text \<open>
  Claim C2 as stated fails: after start-up with three tracks, dialling 1, 2, 4 speaks the
  titles and returns with the buffer \<open>''124''\<close>, not empty.
\<close>

theorem list_titles_leaves_124:
  "dialed_number (final (dial demo_cfg off_hook [1, 2, 4] started)) = ''124''"
  by (simp add: started_eval dial_eval action_eval demo_cfg_def off_hook_def
      list_all_tracks_def list_loop.simps)

subsection \<open>C3: the reset code\<close>

text \<open>
  Claim C3, as the code has it. Dialled on an empty or a full buffer, 6, 6, 6 returns with
  the buffer empty and the three indicator pins low. The hypothesis on the buffer is
  needed: digits already in the buffer count towards the code, as the examples after the
  theorem show.
\<close>

theorem reset_clears_buffer:
  assumes "dialed_number s = [] \<or> 3 \<le> length (dialed_number s)"
    and "dialling env (clock s) (Suc (Suc (Suc 0)))"
  shows "\<exists>s'. dial cfg env [6, 6, 6] s = Returned s' \<and> dialed_number s' = [] \<and>
    gpio s' pin_dial_counter_led = PI_LOW \<and> gpio s' pin_hangout_led = PI_LOW \<and>
    gpio s' pin_dialer_led = PI_LOW"
proof -
  from two_digits [OF assms(1,2), of 6 6 cfg]
  obtain s1 s2 where t: "turn cfg env (edges 6) s = Returned s1" "turn cfg env (edges 6) s1 = Returned s2"
    and s2: "dialed_number s2 = [digit_char 6, digit_char 6]" "clock s2 = clock s + 4"
    by auto
  have w: "dialling env (clock s2) (Suc 0)"
    unfolding s2 using assms(2) by (rule dialling_after_two)
  let ?q = "if edges 6 = 20 then 0 else edges 6"
  define s3 where "s3 = s2\<lparr>dialer_status := PI_LOW, pulses := ?q,
          dialed_number := (if length (dialed_number s2) \<ge> 3 then [] else dialed_number s2)
             @ str_nat (?q div 2),
          gpio := (gpio s2)(pin_dialer_led := PI_LOW), clock := clock s2 + 2,
          trace := trace s2 @ [Write pin_dialer_led PI_HIGH, Write pin_dialer_led PI_LOW]\<rparr>"
  have t3: "turn cfg env (edges 6) s2 =
     and_then (check_number cfg env s3) (\<lambda>s1. Returned (pi_write pin_dialer_led PI_LOW s1))"
    unfolding s3_def using w by (intro turn_eq) (simp_all add: edges_def)
  have "dialed_number s3 = [digit_char 6, digit_char 6, digit_char 6]"
    using edges_digit(2) [of 6] by (simp add: s3_def s2)
  then have "py_int (dialed_number s3) = Some 666"
    using py_int_digits(2) [of 6 6 6] by simp
  then have "check_number cfg env s3 = Returned (reinit (s3\<lparr>dialed_number := []\<rparr>))"
    by (rule check_number_reset)
  then show ?thesis
    unfolding dial_three [OF t] t3
    by (simp add: reinit_eq pi_write_def pin_defs)
qed

text \<open>The theorem after start-up and on the full buffer that a command leaves.\<close>

theorem reset_clears_buffer_witness:
  "dialed_number (final (dial demo_cfg off_hook [6, 6, 6] (started\<lparr>dialed_number := ''124''\<rparr>))) = []"
proof -
  have h: "dialed_number (started\<lparr>dialed_number := ''124''\<rparr>) = [] \<or>
      3 \<le> length (dialed_number (started\<lparr>dialed_number := ''124''\<rparr>))"
    "dialling off_hook (clock (started\<lparr>dialed_number := ''124''\<rparr>)) (Suc (Suc (Suc 0)))"
    by (simp_all add: started_eval off_hook_def)
  from reset_clears_buffer [OF h, of demo_cfg]
  obtain s' where "dial demo_cfg off_hook [6, 6, 6] (started\<lparr>dialed_number := ''124''\<rparr>) = Returned s'"
    "dialed_number s' = []"
    by blast
  then show ?thesis by simp
qed

text \<open>
  Claim C3 as stated fails: with the digit 1 already in the buffer and the play position
  at 2, dialling 6, 6, 6 fills the buffer to \<open>''166''\<close>, which is no command; the third 6
  starts a new buffer. The buffer ends as \<open>''6''\<close> and the play position is still 2.
\<close>

theorem reset_depends_on_buffer:
  "dialed_number (final (dial demo_cfg off_hook [6, 6, 6]
      (started\<lparr>dialed_number := ''1'', track_position := 2\<rparr>))) = ''6'' \<and>
   track_position (final (dial demo_cfg off_hook [6, 6, 6]
      (started\<lparr>dialed_number := ''1'', track_position := 2\<rparr>))) = 2"
  by (simp add: started_eval dial_eval demo_cfg_def off_hook_def)

text \<open>With \<open>''66''\<close> or \<open>''6''\<close> already in the buffer the code 666 is completed by the first or
  the second 6 dialled and the reset takes place there; the remaining digits start a new
  buffer, and the sequence ends with \<open>''66''\<close> or \<open>''6''\<close> in it.\<close>

lemma reset_mid_sequence:
  "dialed_number (final (dial demo_cfg off_hook [6, 6, 6] (started\<lparr>dialed_number := ''66''\<rparr>))) = ''66'' \<and>
   dialed_number (final (dial demo_cfg off_hook [6, 6, 6] (started\<lparr>dialed_number := ''6''\<rparr>))) = ''6''"
  by (simp add: started_eval dial_eval demo_cfg_def off_hook_def)

text \<open>The reset code on an empty buffer does clear the buffer, and leaves the play position
  where it was: \<^verbatim>\<open>reinit\<close> assigns a local \<^verbatim>\<open>track_position\<close>.\<close>

lemma reset_keeps_position:
  "dialed_number (final (dial demo_cfg off_hook [6, 6, 6] (started\<lparr>track_position := 2\<rparr>))) = [] \<and>
   track_position (final (dial demo_cfg off_hook [6, 6, 6] (started\<lparr>track_position := 2\<rparr>))) = 2"
  by (simp add: started_eval dial_eval demo_cfg_def off_hook_def)

subsection \<open>C4: the capacity of the buffer\<close>

text \<open>
  Claim C4, as the code has it. A turn of the dial appends \<^verbatim>\<open>str(int(pulses / 2))\<close>, which
  is one character only while the raw pulse count is at most 20. With that bound the
  buffer stays within three characters over every interrupt handler. A turn of the dial
  on a buffer at capacity empties the buffer at its first dial-detect edge and ends with
  the buffer holding the new digit alone.
\<close>

theorem buffer_capacity:
  "(length (dialed_number s) \<le> 3 \<and> pulses s \<le> 20 \<longrightarrow>
      length (dialed_number (final (dial_detect cfg env s))) \<le> 3) \<and>
   (length (dialed_number s) \<le> 3 \<longrightarrow>
      length (dialed_number (final (hangout cfg env s))) \<le> 3 \<and>
      length (dialed_number (pulse_count s)) \<le> 3) \<and>
   (3 \<le> length (dialed_number s) \<and> dialling env (clock s) (Suc 0) \<and> 0 < p \<and> p \<le> 20 \<longrightarrow>
      dialed_number (final (dial_detect cfg env (idle s))) = [] \<and>
      dialed_number (final (turn cfg env p s)) = [digit_char ((if p = 20 then 0 else p) div 2)])"
proof (intro conjI impI)
  assume "length (dialed_number s) \<le> 3 \<and> pulses s \<le> 20"
  then show "length (dialed_number (final (dial_detect cfg env s))) \<le> 3"
    by (simp add: dial_detect_length)
next
  assume "length (dialed_number s) \<le> 3"
  then show "length (dialed_number (final (hangout cfg env s))) \<le> 3"
    using hangout_bounds [of cfg env s] by simp
next
  assume "length (dialed_number s) \<le> 3"
  then show "length (dialed_number (pulse_count s)) \<le> 3"
    by (simp add: pulse_count_length)
next
  assume a: "3 \<le> length (dialed_number s) \<and> dialling env (clock s) (Suc 0) \<and> 0 < p \<and> p \<le> 20"
  then show "dialed_number (final (dial_detect cfg env (idle s))) = []"
    by (intro dial_detect_at_capacity) (simp_all add: idle_def)
next
  assume a: "3 \<le> length (dialed_number s) \<and> dialling env (clock s) (Suc 0) \<and> 0 < p \<and> p \<le> 20"
  let ?d = "(if p = 20 then 0 else p) div 2"
  have d: "?d < 10" using a by auto
  have b: "[digit_char ?d] = (if 3 \<le> length (dialed_number s) then [] else dialed_number s) @ str_nat ?d"
    using a d by (simp add: str_nat_digit)
  have "py_int [digit_char ?d] = Some (int ?d)"
    using d by (rule py_int_digit)
  moreover have "int ?d < 100" using d by simp
  ultimately show "dialed_number (final (turn cfg env p s)) = [digit_char ?d]"
    using a b turn_quiet [of env s 0 p "[digit_char ?d]" "int ?d" cfg] by simp
qed

text \<open>The theorem on a full buffer after start-up, with the digit 3 dialled.\<close>

theorem buffer_capacity_witness:
  "length (dialed_number (final (dial_detect demo_cfg off_hook (started\<lparr>dialed_number := ''777''\<rparr>)))) \<le> 3 \<and>
   length (dialed_number (final (hangout demo_cfg off_hook (started\<lparr>dialed_number := ''777''\<rparr>)))) \<le> 3 \<and>
   dialed_number (final (dial_detect demo_cfg off_hook (idle (started\<lparr>dialed_number := ''777''\<rparr>)))) = [] \<and>
   dialed_number (final (turn demo_cfg off_hook 6 (started\<lparr>dialed_number := ''777''\<rparr>))) = ''3''"
proof -
  have h: "length (dialed_number (started\<lparr>dialed_number := ''777''\<rparr>)) \<le> 3"
    "pulses (started\<lparr>dialed_number := ''777''\<rparr>) \<le> 20"
    "3 \<le> length (dialed_number (started\<lparr>dialed_number := ''777''\<rparr>))"
    "dialling off_hook (clock (started\<lparr>dialed_number := ''777''\<rparr>)) (Suc 0)"
    by (simp_all add: started_eval off_hook_def)
  show ?thesis
    using h buffer_capacity [of "started\<lparr>dialed_number := ''777''\<rparr>" demo_cfg off_hook 6]
    by (simp add: digit_char_def)
qed

text \<open>
  Claim C4 as stated fails: 22 counting edges in one turn (a bouncing contact) on the
  buffer \<open>''12''\<close> append \<open>''11''\<close>, and the handler returns with four characters.
\<close>

theorem buffer_exceeds_capacity:
  "dialed_number (final (turn demo_cfg off_hook 22 (started\<lparr>dialed_number := ''12''\<rparr>))) = ''1211''"
  by (simp add: started_eval dial_eval demo_cfg_def off_hook_def)

subsection \<open>C5: decoding the pulse count\<close>

text \<open>
  Claim C5. At the end of a turn of the dial (handset off the hook, dial-detect pin low,
  buffer below capacity) with raw pulse count \<open>P\<close>: for \<open>P = 20\<close> the digit 0 is appended,
  for an even \<open>P\<close> from 2 to 18 the digit \<open>P / 2\<close>, and the dispatcher then runs on the
  extended buffer; for \<open>P = 0\<close> nothing is appended and the dispatcher does not run. On an
  empty buffer the handler returns with the buffer holding that one digit.
\<close>

theorem decoded_digit:
  assumes "line_in env (clock s) = PI_HIGH" and "dial_in env (clock s) = PI_LOW"
    and "length (dialed_number s) < 3"
  shows
   "(pulses s = 20 \<longrightarrow>
       dial_detect cfg env s =
         and_then (check_number cfg env
            (s\<lparr>dialer_status := PI_LOW, pulses := 0, dialed_number := dialed_number s @ ''0''\<rparr>))
           (\<lambda>s1. Returned (pi_write pin_dialer_led PI_LOW s1))) \<and>
    (even (pulses s) \<and> 2 \<le> pulses s \<and> pulses s \<le> 18 \<longrightarrow>
       dial_detect cfg env s =
         and_then (check_number cfg env
            (s\<lparr>dialer_status := PI_LOW,
               dialed_number := dialed_number s @ [digit_char (pulses s div 2)]\<rparr>))
           (\<lambda>s1. Returned (pi_write pin_dialer_led PI_LOW s1))) \<and>
    (pulses s = 0 \<longrightarrow>
       dial_detect cfg env s = Returned (pi_write pin_dialer_led PI_LOW (s\<lparr>dialer_status := PI_LOW\<rparr>))) \<and>
    (dialed_number s = [] \<and> (pulses s = 20 \<or> even (pulses s) \<and> 2 \<le> pulses s \<and> pulses s \<le> 18) \<longrightarrow>
       dialed_number (final (dial_detect cfg env s)) =
         [digit_char (if pulses s = 20 then 0 else pulses s div 2)])"
proof -
  have d: "str_nat (pulses s div 2) = [digit_char (pulses s div 2)]" if "pulses s \<le> 18"
    using that by (simp add: str_nat_digit)
  have z: "str_nat 0 = ''0''"
    by (simp add: str_nat_digit digit_char_def)
  have z': "''0'' = [digit_char 0]"
    by (simp add: digit_char_def)
  have one: "dialed_number (final (check_number cfg env s1)) = [digit_char k]"
    if "dialed_number s1 = [digit_char k]" "k < 10" for s1 k
    using check_number_one_digit [OF that] that(1) by simp
  have twenty: "dial_detect cfg env s =
         and_then (check_number cfg env
            (s\<lparr>dialer_status := PI_LOW, pulses := 0, dialed_number := dialed_number s @ ''0''\<rparr>))
           (\<lambda>s1. Returned (pi_write pin_dialer_led PI_LOW s1))" if "pulses s = 20"
    using assms that
    by (simp add: dial_detect_def pi_read_def pin_defs max_numbers_def Let_def z)
  have even: "dial_detect cfg env s =
         and_then (check_number cfg env
            (s\<lparr>dialer_status := PI_LOW,
               dialed_number := dialed_number s @ [digit_char (pulses s div 2)]\<rparr>))
           (\<lambda>s1. Returned (pi_write pin_dialer_led PI_LOW s1))" if "2 \<le> pulses s" "pulses s \<le> 18"
    using assms that
    by (simp add: dial_detect_def pi_read_def pin_defs max_numbers_def Let_def d)
  have zero: "dial_detect cfg env s = Returned (pi_write pin_dialer_led PI_LOW (s\<lparr>dialer_status := PI_LOW\<rparr>))"
    if "pulses s = 0"
    using assms that
    by (simp add: dial_detect_def pi_read_def pin_defs max_numbers_def Let_def)
  have alone20: "dialed_number (final (dial_detect cfg env s)) = [digit_char 0]"
    if "dialed_number s = []" "pulses s = 20"
    using that by (simp add: twenty after_led one z')
  have alone: "dialed_number (final (dial_detect cfg env s)) = [digit_char (pulses s div 2)]"
    if "dialed_number s = []" "2 \<le> pulses s" "pulses s \<le> 18"
    using that by (simp add: even after_led one)
  show ?thesis
    using twenty even zero alone20 alone by auto
qed

text \<open>The theorem at a raw count of 8 on the empty buffer after start-up.\<close>

theorem decoded_digit_witness:
  "dialed_number (final (dial_detect demo_cfg off_hook (started\<lparr>pulses := 8\<rparr>))) = ''4''"
proof -
  have h1: "line_in off_hook (clock (started\<lparr>pulses := 8\<rparr>)) = PI_HIGH"
    by (simp add: off_hook_def)
  have h2: "dial_in off_hook (clock (started\<lparr>pulses := 8\<rparr>)) = PI_LOW"
    by (simp add: off_hook_def started_eval)
  have h3: "length (dialed_number (started\<lparr>pulses := 8\<rparr>)) < 3"
    by (simp add: started_eval)
  have h4: "dialed_number (started\<lparr>pulses := 8\<rparr>) = []"
    by (simp add: started_eval)
  from decoded_digit [OF h1 h2 h3, of demo_cfg, THEN conjunct2, THEN conjunct2, THEN conjunct2] h4
  have "dialed_number (final (dial_detect demo_cfg off_hook (started\<lparr>pulses := 8\<rparr>))) =
      [digit_char (8 div 2)]"
    by simp
  then show ?thesis
    by (simp add: digit_char_def)
qed

subsection \<open>C6: track select and the play position\<close>

text \<open>
  Claim C6, as the code has it. With at least five tracks, dialling 4, 0, 5 on an empty or
  a full buffer returns and has run exactly the two commands that announce and play the
  track at index 4. The play position is the one global \<^verbatim>\<open>track_position\<close>: the dispatcher
  sets it to 4 and \<^verbatim>\<open>play_track\<close> advances it, so it ends at 5, or at 0 with five tracks,
  whatever it was before.
\<close>

theorem track_select_plays_and_moves:
  assumes "dialed_number s = [] \<or> 3 \<le> length (dialed_number s)"
    and "dialling env (clock s) (Suc (Suc (Suc 0)))"
    and "5 \<le> tracks cfg"
    and "4 < length (text_messages cfg)"
    and "4 < length (track_titles cfg)" and "4 < length (track_list cfg)"
  shows "\<exists>s'. dial cfg env [4, 0, 5] s = Returned s' \<and>
    commands (trace s') = commands (trace s) @ commands (announce_and_play cfg 4) \<and>
    track_position s' = (if tracks cfg = 5 then 0 else 5)"
proof -
  from two_digits [OF assms(1,2), of 4 0 cfg]
  obtain s1 s2 where t: "turn cfg env (edges 4) s = Returned s1" "turn cfg env (edges 0) s1 = Returned s2"
    and s2: "dialed_number s2 = [digit_char 4, digit_char 0]" "clock s2 = clock s + 4"
      "track_position s2 = track_position s" "commands (trace s2) = commands (trace s)"
    by auto
  have w: "dialling env (clock s2) (Suc 0)"
    unfolding s2 using assms(2) by (rule dialling_after_two)
  from third_digit_plays [OF w s2(1), of 5 405 4 cfg] assms(3-)
  obtain s' where "turn cfg env (edges 5) s2 = Returned s'"
    "track_position s' = (if int 4 + 1 = tracks cfg then 0 else int 4 + 1)"
    "commands (trace s') = commands (trace s2) @ commands (announce_and_play cfg 4)"
    by auto
  then show ?thesis
    unfolding dial_three [OF t] by (auto simp: s2)
qed

text \<open>The theorem with six tracks after start-up.\<close>

theorem track_select_plays_and_moves_witness:
  "track_position (final (dial demo_cfg6 off_hook [4, 0, 5] started)) = 5 \<and>
   commands (trace (final (dial demo_cfg6 off_hook [4, 0, 5] started))) =
     [[''/home/pi/smartphone/trans'', ''-sp'', ''track E''], [''mplayer'', ''/music/e.mp3'']]"
proof -
  have h: "dialed_number started = [] \<or> 3 \<le> length (dialed_number started)"
    "dialling off_hook (clock started) (Suc (Suc (Suc 0)))"
    "5 \<le> tracks demo_cfg6"
    "4 < length (text_messages demo_cfg6)"
    "4 < length (track_titles demo_cfg6)" "4 < length (track_list demo_cfg6)"
    by (simp_all add: started_eval off_hook_def demo_cfg6_def demo_cfg_def)
  from track_select_plays_and_moves [OF h]
  obtain s' where "dial demo_cfg6 off_hook [4, 0, 5] started = Returned s'"
    "commands (trace s') = commands (trace started) @ commands (announce_and_play demo_cfg6 4)"
    "track_position s' = (if tracks demo_cfg6 = 5 then 0 else 5)"
    by blast
  then show ?thesis
    by (simp add: commands_announce_and_play demo_cfg6_def demo_cfg_def started_eval TTS_def PLAYER_def)
qed

text \<open>
  Claim C6 as stated fails: with six tracks and the play position at 0, dialling 4, 0, 5
  leaves the play position at 5, so that the next-track command goes on from there.
\<close>

theorem track_select_moves_position:
  "track_position started = 0 \<and>
   track_position (final (dial demo_cfg6 off_hook [4, 0, 5] started)) = 5"
  by (simp add: started_eval dial_eval action_eval demo_cfg6_def demo_cfg_def off_hook_def
      play_track_def)

subsection \<open>C7: hanging up while the playlist plays\<close>

text \<open>
  Claim C7, as the code has it. \<^verbatim>\<open>play_all_tracks\<close> reads the line once after each track
  and at no other time. When the first such reading that finds the line low is the one
  after the track at index \<open>k\<close>, whatever the line does between the readings, the action
  returns; what it has done is: the amplifier sequence, the opening announcement, the
  announcement and the playing of the tracks 0 to \<open>k\<close> and of no other, and the amplifier
  sequence again. \<^verbatim>\<open>ampli_status\<close> and \<^verbatim>\<open>is_playing\<close> are false and the power pin is
  low. The readings fall at the times \<open>clock s + 6 + 2 j\<close>; the message list has its entries
  2, 3 and 4 and the playlist its entries up to \<open>k\<close>.
\<close>

theorem play_all_stops_on_hangup:
  assumes "4 < length (text_messages cfg)" and "int k < tracks cfg"
    and "k < length (track_titles cfg)" and "k < length (track_list cfg)"
    and "\<forall>j<k. line_in env (clock s + 6 + 2 * j) = PI_HIGH"
    and "line_in env (clock s + 6 + 2 * k) = PI_LOW"
  shows "\<exists>s'. play_all_tracks cfg env s = Returned s' \<and>
    trace s' = trace s @ ampli_pulses @
      [Run [TTS ! 0, TTS ! 1, text_messages cfg ! 3 @ '' '' @ text_messages cfg ! 2]] @
      concat (map (announce_and_play cfg) [0..<Suc k]) @ ampli_pulses \<and>
    track_position s' = int k + 1 \<and> \<not> ampli_status s' \<and> \<not> is_playing s' \<and>
    gpio s' pin_ampli_power = PI_LOW"
proof -
  have m: "py_index (text_messages cfg) 3 = Inr (text_messages cfg ! 3)"
    "py_index (text_messages cfg) 2 = Inr (text_messages cfg ! 2)"
    using assms(1) py_index_nat [of 3 "text_messages cfg"] py_index_nat [of 2 "text_messages cfg"]
    by simp_all
  define s2 where "s2 = say (text_messages cfg ! 3 @ '' '' @ text_messages cfg ! 2)
     ((ampli_on_off (s\<lparr>is_playing := True\<rparr>))\<lparr>track_position := 0\<rparr>)"
  have p2: "track_position s2 = int 0" "clock s2 = clock s + 4" "is_playing s2"
    "trace s2 = trace s @ ampli_pulses @
      [Run [TTS ! 0, TTS ! 1, text_messages cfg ! 3 @ '' '' @ text_messages cfg ! 2]]"
    by (simp_all add: s2_def say_def runCmd_def ampli_on_off_eq)
  have high: "\<forall>j. 0 \<le> j \<and> j < k \<longrightarrow> line_in env (clock s2 + 2 * (j - 0) + 2) = PI_HIGH"
  proof (intro allI impI)
    fix j assume "0 \<le> j \<and> j < k"
    then have a: "line_in env (clock s + 6 + 2 * j) = PI_HIGH"
      using assms(5) by simp
    have b: "clock s2 + 2 * (j - 0) + 2 = clock s + 6 + 2 * j"
      using p2(2) by arith
    show "line_in env (clock s2 + 2 * (j - 0) + 2) = PI_HIGH"
      unfolding b by (rule a)
  qed
  have low: "line_in env (clock s2 + 2 * (k - 0) + 2) = PI_LOW"
  proof -
    have b: "clock s2 + 2 * (k - 0) + 2 = clock s + 6 + 2 * k"
      using p2(2) by arith
    show ?thesis unfolding b by (rule assms(6))
  qed
  note loop = play_all_loop_until_hangup [OF assms(1) p2(1) _ assms(2-4) high low]
  have "play_all_tracks cfg env s =
      and_then (play_all_loop cfg env s2) (\<lambda>s3. Returned (power_down s3))"
    by (simp add: play_all_tracks_def Let_def m s2_def)
  then show ?thesis
    using p2 by (simp add: loop power_down_eq pin_defs)
qed

text \<open>The theorem with three tracks and the handset put down while the second track plays.\<close>

theorem play_all_stops_on_hangup_witness:
  "commands (trace (final (play_all_tracks demo_cfg (hang_up_after 7) started))) =
     [[''/home/pi/smartphone/trans'', ''-sp'', ''playing the playlist''],
      [''/home/pi/smartphone/trans'', ''-sp'', ''track A''], [''mplayer'', ''/music/a.mp3''],
      [''/home/pi/smartphone/trans'', ''-sp'', ''track B''], [''mplayer'', ''/music/b.mp3'']] \<and>
   \<not> ampli_status (final (play_all_tracks demo_cfg (hang_up_after 7) started)) \<and>
   \<not> is_playing (final (play_all_tracks demo_cfg (hang_up_after 7) started))"
proof -
  have h: "4 < length (text_messages demo_cfg)" "int 1 < tracks demo_cfg"
    "1 < length (track_titles demo_cfg)" "1 < length (track_list demo_cfg)"
    "\<forall>j<1. line_in (hang_up_after 7) (clock started + 6 + 2 * j) = PI_HIGH"
    "line_in (hang_up_after 7) (clock started + 6 + 2 * 1) = PI_LOW"
    by (simp_all add: demo_cfg_def hang_up_after_def off_hook_def started_eval)
  from play_all_stops_on_hangup [OF h]
  obtain s' where "play_all_tracks demo_cfg (hang_up_after 7) started = Returned s'"
    "trace s' = trace started @ ampli_pulses @
      [Run [TTS ! 0, TTS ! 1, text_messages demo_cfg ! 3 @ '' '' @ text_messages demo_cfg ! 2]] @
      concat (map (announce_and_play demo_cfg) [0..<Suc 1]) @ ampli_pulses"
    "\<not> ampli_status s'" "\<not> is_playing s'"
    by blast
  then show ?thesis
    by (simp add: commands_announce_and_play demo_cfg_def started_eval TTS_def PLAYER_def
        upt_conv_Cons)
qed

text \<open>
  Claim C7 as stated fails: the handset is put down while the amplifier is being switched
  on, before any track plays. The line is low from time 1 on, and the first track is
  still announced and played in full before the line is read.
\<close>

theorem play_all_plays_after_early_hangup:
  "line_in (hang_up_after 0) 1 = PI_LOW \<and>
   commands (trace (final (play_all_tracks demo_cfg (hang_up_after 0) started))) =
     [[''/home/pi/smartphone/trans'', ''-sp'', ''playing the playlist''],
      [''/home/pi/smartphone/trans'', ''-sp'', ''track A''], [''mplayer'', ''/music/a.mp3'']]"
  by (simp add: started_eval action_eval demo_cfg_def off_hook_def hang_up_after_def
      play_all_tracks_def play_all_loop.simps pi_read_def pin_defs Let_def)

subsection \<open>C8: next track\<close>

text \<open>
  Claim C8. With \<open>N\<close> tracks (\<open>N \<ge> 1\<close> follows from \<open>p < N\<close>) and the play position at
  \<open>p < N\<close>, dialling 3, 2, 1 on an empty or a full buffer returns, has run exactly the two
  commands that announce and play the track at index \<open>p\<close>, and leaves the play position at
  \<open>(p + 1) mod N\<close>. The message list has its entry 4 and the playlist its entry \<open>p\<close>;
  otherwise the action raises IndexError.
\<close>

theorem next_track_advances:
  assumes "dialed_number s = [] \<or> 3 \<le> length (dialed_number s)"
    and "dialling env (clock s) (Suc (Suc (Suc 0)))"
    and "track_position s = int p" and "int p < tracks cfg"
    and "4 < length (text_messages cfg)"
    and "p < length (track_titles cfg)" and "p < length (track_list cfg)"
  shows "\<exists>s'. dial cfg env [3, 2, 1] s = Returned s' \<and>
    commands (trace s') = commands (trace s) @ commands (announce_and_play cfg p) \<and>
    track_position s' = (int p + 1) mod tracks cfg"
proof -
  from two_digits [OF assms(1,2), of 3 2 cfg]
  obtain s1 s2 where t: "turn cfg env (edges 3) s = Returned s1" "turn cfg env (edges 2) s1 = Returned s2"
    and s2: "dialed_number s2 = [digit_char 3, digit_char 2]" "clock s2 = clock s + 4"
      "track_position s2 = track_position s" "commands (trace s2) = commands (trace s)"
    by auto
  have w: "dialling env (clock s2) (Suc 0)"
    unfolding s2 using assms(2) by (rule dialling_after_two)
  have m: "(if int p + 1 = tracks cfg then 0 else int p + 1) = (int p + 1) mod tracks cfg"
    using assms(4) by auto
  from third_digit_plays [OF w s2(1), of 1 321 p cfg] assms(3,5-) s2(3)
  obtain s' where "turn cfg env (edges 1) s2 = Returned s'"
    "track_position s' = (if int p + 1 = tracks cfg then 0 else int p + 1)"
    "commands (trace s') = commands (trace s2) @ commands (announce_and_play cfg p)"
    by auto
  then show ?thesis
    unfolding dial_three [OF t] by (simp add: s2 m)
qed

text \<open>The theorem with three tracks and the play position on the last one.\<close>

theorem next_track_advances_witness:
  "track_position (final (dial demo_cfg off_hook [3, 2, 1] (started\<lparr>track_position := 2\<rparr>))) = 0 \<and>
   commands (trace (final (dial demo_cfg off_hook [3, 2, 1] (started\<lparr>track_position := 2\<rparr>)))) =
     [[''/home/pi/smartphone/trans'', ''-sp'', ''track C''], [''mplayer'', ''/music/c.mp3'']]"
proof -
  have h: "dialed_number (started\<lparr>track_position := 2\<rparr>) = [] \<or> 3 \<le> length (dialed_number (started\<lparr>track_position := 2\<rparr>))"
    "dialling off_hook (clock (started\<lparr>track_position := 2\<rparr>)) (Suc (Suc (Suc 0)))"
    "track_position (started\<lparr>track_position := 2\<rparr>) = int 2" "int 2 < tracks demo_cfg"
    "4 < length (text_messages demo_cfg)"
    "2 < length (track_titles demo_cfg)" "2 < length (track_list demo_cfg)"
    by (simp_all add: started_eval off_hook_def demo_cfg_def)
  from next_track_advances [OF h]
  obtain s' where "dial demo_cfg off_hook [3, 2, 1] (started\<lparr>track_position := 2\<rparr>) = Returned s'"
    "commands (trace s') = commands (trace (started\<lparr>track_position := 2\<rparr>)) @ commands (announce_and_play demo_cfg 2)"
    "track_position s' = (int 2 + 1) mod tracks demo_cfg"
    by blast
  then show ?thesis
    by (simp add: commands_announce_and_play demo_cfg_def started_eval TTS_def PLAYER_def)
qed

subsection \<open>C9: the amplifier status flag\<close>

text \<open>
  Claim C9. \<^verbatim>\<open>ampli_on_off\<close> leaves \<^verbatim>\<open>ampli_status\<close> false; none of the three interrupt
  handlers makes it true, whether it returns or raises; so it is false in every state the
  program reaches after \<^verbatim>\<open>initGPIO\<close>.
\<close>

theorem ampli_status_stays_false:
  "\<not> ampli_status (ampli_on_off s) \<and>
   (\<not> ampli_status s \<longrightarrow>
      \<not> ampli_status (final (hangout cfg env s)) \<and>
      \<not> ampli_status (final (dial_detect cfg env s)) \<and>
      \<not> ampli_status (pulse_count s)) \<and>
   (s \<in> reachable cfg env \<longrightarrow> \<not> ampli_status s)"
  using hangout_bounds [of cfg env s]
  by (auto simp: ampli_on_off_eq dial_detect_ampli_status reachable_not_ampli pulse_count_def)

text \<open>The theorem at the state after start-up and a pick-up of the handset.\<close>

theorem ampli_status_stays_false_witness:
  "final (hangout demo_cfg off_hook started) \<in> reachable demo_cfg off_hook \<and>
   \<not> ampli_status (final (hangout demo_cfg off_hook started)) \<and>
   \<not> ampli_status (final (dial_detect demo_cfg off_hook (final (hangout demo_cfg off_hook started))))"
  using ampli_status_stays_false [of "final (hangout demo_cfg off_hook started)" demo_cfg off_hook]
    reachable.line_edge [OF reachable.start, of demo_cfg off_hook "\<lambda>pin. PI_LOW" 0]
  by (simp add: started_def)

subsection \<open>C10: track-select indices are in bounds\<close>

text \<open>
  Claim C10. Both playlist lists have as many entries as \<^verbatim>\<open>tracks\<close> says, and the buffer
  holds the value \<open>v\<close>. If \<open>v\<close> is above 400 and at most 400 + \<^verbatim>\<open>tracks\<close>, the index
  \<open>v - 401\<close> lies between 0 and \<^verbatim>\<open>tracks\<close> - 1 and both lists can be read there; unless
  \<open>v\<close> is 666, which resets, the dispatcher then sets the play position to \<open>v - 401\<close> and
  runs the single-track action, which returns after announcing and playing that track
  when the message list holds its entry 4. If \<open>v\<close> is outside that range and is none of
  the other command codes, the dispatcher returns with the state untouched: no value out
  of range is taken as a track-select code, so the action never indexes the playlist out
  of bounds.
\<close>

theorem track_select_in_bounds:
  assumes "py_int (dialed_number s) = Some v"
    and "int (length (track_list cfg)) = tracks cfg"
    and "int (length (track_titles cfg)) = tracks cfg"
  shows
   "(400 < v \<and> v \<le> tracks cfg + 400 \<longrightarrow>
       0 \<le> v - 401 \<and> v - 401 \<le> tracks cfg - 1 \<and>
       py_index (track_titles cfg) (v - 401) = Inr (track_titles cfg ! nat (v - 401)) \<and>
       py_index (track_list cfg) (v - 401) = Inr (track_list cfg ! nat (v - 401)) \<and>
       (v \<noteq> 666 \<longrightarrow>
          check_number cfg env s =
            and_then (play_track cfg (release_callbacks (s\<lparr>track_position := v - 401\<rparr>)))
              (\<lambda>s1. Returned (enable_after env s1))) \<and>
       (v \<noteq> 666 \<and> 4 < length (text_messages cfg) \<longrightarrow>
          (\<exists>s'. check_number cfg env s = Returned s' \<and>
             commands (trace s') =
               commands (trace s) @ commands (announce_and_play cfg (nat (v - 401)))))) \<and>
    (\<not> (400 < v \<and> v \<le> tracks cfg + 400) \<and> v \<notin> {666, 321, 123, 124, 111, 999, 100} \<longrightarrow>
       check_number cfg env s = Returned s)"
proof -
  have ne: "dialed_number s \<noteq> []"
    using assms(1) by (auto simp: py_int_def)
  have out: "check_number cfg env s = Returned s"
    if "\<not> (400 < v \<and> v \<le> tracks cfg + 400)" "v \<notin> {666, 321, 123, 124, 111, 999, 100}"
    using that assms(1) ne by (auto simp: check_number_def)
  have inside: "0 \<le> v - 401 \<and> v - 401 \<le> tracks cfg - 1 \<and>
       py_index (track_titles cfg) (v - 401) = Inr (track_titles cfg ! nat (v - 401)) \<and>
       py_index (track_list cfg) (v - 401) = Inr (track_list cfg ! nat (v - 401)) \<and>
       (v \<noteq> 666 \<longrightarrow>
          check_number cfg env s =
            and_then (play_track cfg (release_callbacks (s\<lparr>track_position := v - 401\<rparr>)))
              (\<lambda>s1. Returned (enable_after env s1))) \<and>
       (v \<noteq> 666 \<and> 4 < length (text_messages cfg) \<longrightarrow>
          (\<exists>s'. check_number cfg env s = Returned s' \<and>
             commands (trace s') =
               commands (trace s) @ commands (announce_and_play cfg (nat (v - 401)))))"
    if range: "400 < v" "v \<le> tracks cfg + 400"
  proof -
    have r: "0 \<le> v - 401" "v - 401 \<le> tracks cfg - 1"
      using range by simp_all
    then have i: "nat (v - 401) < length (track_titles cfg)" "nat (v - 401) < length (track_list cfg)"
      using assms(2,3) by simp_all
    have ix: "py_index (track_titles cfg) (v - 401) = Inr (track_titles cfg ! nat (v - 401))"
      "py_index (track_list cfg) (v - 401) = Inr (track_list cfg ! nat (v - 401))"
      using r i py_index_nat [of "nat (v - 401)"] by simp_all
    have br: "check_number cfg env s =
            and_then (play_track cfg (release_callbacks (s\<lparr>track_position := v - 401\<rparr>)))
              (\<lambda>s1. Returned (enable_after env s1))" if "v \<noteq> 666"
      using that range assms(1) ne by (simp add: check_number_def)
    have "\<exists>s'. check_number cfg env s = Returned s' \<and>
        commands (trace s') = commands (trace s) @ commands (announce_and_play cfg (nat (v - 401)))"
      if "v \<noteq> 666" "4 < length (text_messages cfg)"
      using check_number_plays [OF assms(1) _ that(2) i, of env] range that(1) r by auto
    then show ?thesis
      using r ix br by blast
  qed
  show ?thesis
    using out inside by blast
qed

text \<open>The theorem with three tracks: at \<open>''403''\<close>, the last code in range, and at \<open>''404''\<close>
  and \<open>''400''\<close>, the first values out of range on either side.\<close>

theorem track_select_in_bounds_witness:
  "py_index (track_list demo_cfg) (403 - 401) = Inr ''c'' \<and>
   commands (trace (final (check_number demo_cfg off_hook (started\<lparr>dialed_number := ''403''\<rparr>)))) =
     [[''/home/pi/smartphone/trans'', ''-sp'', ''track C''], [''mplayer'', ''/music/c.mp3'']] \<and>
   check_number demo_cfg off_hook (started\<lparr>dialed_number := ''404''\<rparr>) =
     Returned (started\<lparr>dialed_number := ''404''\<rparr>) \<and>
   check_number demo_cfg off_hook (started\<lparr>dialed_number := ''400''\<rparr>) =
     Returned (started\<lparr>dialed_number := ''400''\<rparr>)"
proof -
  have l: "int (length (track_list demo_cfg)) = tracks demo_cfg"
    "int (length (track_titles demo_cfg)) = tracks demo_cfg"
    by (simp_all add: demo_cfg_def)
  have h3: "py_int (dialed_number (started\<lparr>dialed_number := ''403''\<rparr>)) = Some 403"
    and h4: "py_int (dialed_number (started\<lparr>dialed_number := ''404''\<rparr>)) = Some 404"
    and h0: "py_int (dialed_number (started\<lparr>dialed_number := ''400''\<rparr>)) = Some 400"
    by (simp_all add: py_int_def digit_val_def)
  have r: "400 < (403::int) \<and> 403 \<le> tracks demo_cfg + 400"
    "(403::int) \<noteq> 666 \<and> 4 < length (text_messages demo_cfg)"
    "\<not> (400 < (404::int) \<and> 404 \<le> tracks demo_cfg + 400) \<and> (404::int) \<notin> {666, 321, 123, 124, 111, 999, 100}"
    "\<not> (400 < (400::int) \<and> 400 \<le> tracks demo_cfg + 400) \<and> (400::int) \<notin> {666, 321, 123, 124, 111, 999, 100}"
    by (simp_all add: demo_cfg_def)
  note c = track_select_in_bounds [OF h3 l, of off_hook, THEN conjunct1, rule_format, OF r(1)]
  have a: "py_index (track_list demo_cfg) (403 - 401) = Inr (track_list demo_cfg ! nat (403 - 401))"
    using c by blast
  from c [THEN conjunct2, THEN conjunct2, THEN conjunct2, THEN conjunct2, THEN conjunct2,
      rule_format, OF r(2)]
  obtain s' where s': "check_number demo_cfg off_hook (started\<lparr>dialed_number := ''403''\<rparr>) = Returned s'"
    "commands (trace s') = commands (trace (started\<lparr>dialed_number := ''403''\<rparr>)) @
       commands (announce_and_play demo_cfg (nat (403 - 401)))"
    by blast
  have b: "commands (trace (final (check_number demo_cfg off_hook (started\<lparr>dialed_number := ''403''\<rparr>)))) =
     [[''/home/pi/smartphone/trans'', ''-sp'', ''track C''], [''mplayer'', ''/music/c.mp3'']]"
    unfolding s'(1) using s'(2)
    by (simp add: commands_announce_and_play demo_cfg_def started_eval TTS_def PLAYER_def)
  note o4 = track_select_in_bounds [OF h4 l, of off_hook, THEN conjunct2, rule_format, OF r(3)]
  note o0 = track_select_in_bounds [OF h0 l, of off_hook, THEN conjunct2, rule_format, OF r(4)]
  show ?thesis
    using a b o4 o0 by (simp add: demo_cfg_def)
qed

end
